theory Spec2Isabelle
  imports Complex_Main "HOL-Library.AList" "HOL-Library.Sublist"
begin

section \<open>Python values, exceptions and dictionaries\<close>

text \<open>
  The parameter handler of \<^verbatim>\<open>w3af/core/data/parsers/doc/open_api/parameters.py\<close>
  works on parsed OpenAPI documents: nested Python dictionaries, lists, strings and
  numbers. A dictionary is an association list in iteration order, read with
  \<open>map_of\<close> and written with \<open>AList.update\<close> and \<open>AList.delete\<close>. A string is
  the unicode string that the parser of the document returns, as far as its code points
  are below 256. A float is the rational its literal denotes; no arithmetic is done on it.
  \<open>PObject\<close> stands for any other object (a file handle made by the form filler).
  \<open>PDict\<close> is a dictionary held by value, one that nothing else refers to.
  \<open>PRef\<close> is a reference to a dictionary object in a store, used where the identity of
  a dictionary matters; without a store it is an object that is not a dictionary.
\<close>

datatype pyval =
    PNone
  | PBool bool
  | PInt int
  | PFloat rat
  | PStr string
  | PList "pyval list"
  | PDict "(string \<times> pyval) list"
  | PDate int int int
  | PDateTime int int int int int int
  | PObject string
  | PRef nat

text \<open>
  Every exception the handler can meet is a value. \<open>RecursionError\<close> is the
  interpreter's "maximum recursion depth exceeded"; \<open>RefResolutionError\<close> is what
  the specification's \<^verbatim>\<open>deref\<close> raises on a dangling reference; \<open>RuntimeError\<close>
  is "dictionary changed size during iteration".
\<close>

datatype error =
    KeyError
  | TypeError
  | AttributeError
  | ValueError
  | IndexError
  | RecursionError
  | NotImplementedError
  | RefResolutionError
  | RuntimeError

type_synonym pydict = "(string \<times> pyval) list"

definition ebind :: "error + 'a \<Rightarrow> ('a \<Rightarrow> error + 'b) \<Rightarrow> error + 'b" where
  "ebind m f = (case m of Inl e \<Rightarrow> Inl e | Inr v \<Rightarrow> f v)"

text \<open>A \<^verbatim>\<open>for\<close> loop that updates a state and stops at the first exception.\<close>

primrec efold :: "('a \<Rightarrow> 's \<Rightarrow> error + 's) \<Rightarrow> 'a list \<Rightarrow> 's \<Rightarrow> error + 's" where
  "efold f [] s = Inr s"
| "efold f (x # xs) s = ebind (f x s) (efold f xs)"

text \<open>A \<^verbatim>\<open>for\<close> loop that rewrites every element in turn.\<close>

primrec emap :: "('a \<Rightarrow> error + 'b) \<Rightarrow> 'a list \<Rightarrow> error + 'b list" where
  "emap f [] = Inr []"
| "emap f (x # xs) = ebind (f x) (\<lambda>y. ebind (emap f xs) (\<lambda>ys. Inr (y # ys)))"

text \<open>\<^verbatim>\<open>d.get(k, None)\<close>, \<^verbatim>\<open>k in d\<close> and \<^verbatim>\<open>del d[k]\<close> on a dictionary.\<close>

definition dict_get :: "pydict \<Rightarrow> string \<Rightarrow> pyval" where
  "dict_get d k = (case map_of d k of None \<Rightarrow> PNone | Some v \<Rightarrow> v)"

definition dict_has :: "pydict \<Rightarrow> string \<Rightarrow> bool" where
  "dict_has d k = (map_of d k \<noteq> None)"

definition dict_del :: "string \<Rightarrow> pydict \<Rightarrow> error + pydict" where
  "dict_del k d = (if dict_has d k then Inr (AList.delete k d) else Inl KeyError)"

text \<open>
  The same operations on a value that may not be a dictionary: \<^verbatim>\<open>k in x\<close> is key
  membership on a dictionary, element membership on a list, a substring test on a string
  and a \<^verbatim>\<open>TypeError\<close> otherwise; \<^verbatim>\<open>x[k]\<close> with a string key succeeds on a
  dictionary only; \<^verbatim>\<open>x.get(k, None)\<close> exists on a dictionary only.
\<close>

fun is_substring :: "string \<Rightarrow> string \<Rightarrow> bool" where
  "is_substring k [] = (k = [])"
| "is_substring k (c # cs) = (prefix k (c # cs) \<or> is_substring k cs)"

fun py_contains :: "string \<Rightarrow> pyval \<Rightarrow> error + bool" where
  "py_contains k (PDict d) = Inr (dict_has d k)"
| "py_contains k (PList xs) = Inr (PStr k \<in> set xs)"
| "py_contains k (PStr s) = Inr (is_substring k s)"
| "py_contains k _ = Inl TypeError"

fun py_getitem :: "pyval \<Rightarrow> string \<Rightarrow> error + pyval" where
  "py_getitem (PDict d) k = (case map_of d k of None \<Rightarrow> Inl KeyError | Some v \<Rightarrow> Inr v)"
| "py_getitem _ k = Inl TypeError"

fun py_get :: "pyval \<Rightarrow> string \<Rightarrow> error + pyval" where
  "py_get (PDict d) k = Inr (dict_get d k)"
| "py_get _ k = Inl AttributeError"

text \<open>\<^verbatim>\<open>x[k] = v\<close> with a string key.\<close>

fun py_setitem :: "pyval \<Rightarrow> string \<Rightarrow> pyval \<Rightarrow> error + pyval" where
  "py_setitem (PDict d) k v = Inr (PDict (AList.update k v d))"
| "py_setitem _ k v = Inl TypeError"

text \<open>Truth value of a Python object, as \<^verbatim>\<open>if x:\<close> reads it.\<close>

fun py_truthy :: "pyval \<Rightarrow> bool" where
  "py_truthy PNone = False"
| "py_truthy (PBool b) = b"
| "py_truthy (PInt i) = (i \<noteq> 0)"
| "py_truthy (PFloat r) = (r \<noteq> 0)"
| "py_truthy (PStr s) = (s \<noteq> [])"
| "py_truthy (PList xs) = (xs \<noteq> [])"
| "py_truthy (PDict d) = (d \<noteq> [])"
| "py_truthy _ = True"

text \<open>\<^verbatim>\<open>x[0]\<close>: the first element of a list, the first character of a string.\<close>

fun py_getitem0 :: "pyval \<Rightarrow> error + pyval" where
  "py_getitem0 (PList []) = Inl IndexError"
| "py_getitem0 (PList (x # xs)) = Inr x"
| "py_getitem0 (PStr []) = Inl IndexError"
| "py_getitem0 (PStr (c # cs)) = Inr (PStr [c])"
| "py_getitem0 (PDict d) = Inl KeyError"
| "py_getitem0 _ = Inl TypeError"

text \<open>\<^verbatim>\<open>for x in v\<close>: the elements of a list, the characters of a string, the keys of
  a dictionary.\<close>

fun py_iter :: "pyval \<Rightarrow> error + pyval list" where
  "py_iter (PList xs) = Inr xs"
| "py_iter (PStr s) = Inr (map (\<lambda>c. PStr [c]) s)"
| "py_iter (PDict d) = Inr (map (\<lambda>kv. PStr (fst kv)) d)"
| "py_iter _ = Inl TypeError"

text \<open>\<^verbatim>\<open>d.iteritems()\<close> exists on a dictionary only.\<close>

fun py_iteritems :: "pyval \<Rightarrow> error + pydict" where
  "py_iteritems (PDict d) = Inr d"
| "py_iteritems _ = Inl AttributeError"

text \<open>\<^verbatim>\<open>len(x)\<close>.\<close>

fun py_len :: "pyval \<Rightarrow> error + nat" where
  "py_len (PList xs) = Inr (length xs)"
| "py_len (PStr s) = Inr (length s)"
| "py_len (PDict d) = Inr (length d)"
| "py_len _ = Inl TypeError"

text \<open>
  \<^verbatim>\<open>s.isdigit()\<close> on a unicode string: at least one character, and every character a
  digit. Below code point 256 the digits are \<^verbatim>\<open>0\<close> to \<^verbatim>\<open>9\<close> and the superscripts
  two, three and one (U+00B2, U+00B3, U+00B9).
\<close>

definition digit_chars :: "char list" where
  "digit_chars = ''0123456789'' @ [CHR 0xB2, CHR 0xB3, CHR 0xB9]"

definition isdigit :: "string \<Rightarrow> bool" where
  "isdigit s = (s \<noteq> [] \<and> list_all (\<lambda>c. c \<in> set digit_chars) s)"

section \<open>Operations and parameters\<close>

text \<open>
  An operation and its parameters are objects of the bravado-core library. The handler
  reads a parameter's \<^verbatim>\<open>name\<close>, \<^verbatim>\<open>required\<close>, \<^verbatim>\<open>default\<close> and \<^verbatim>\<open>param_spec\<close>
  (a dictionary) and writes its \<^verbatim>\<open>fill\<close>; \<open>fill = None\<close> is a parameter object that
  has no \<^verbatim>\<open>fill\<close> attribute yet. \<^verbatim>\<open>parameter.default\<close> is not a field of its own:
  it reads the \<^verbatim>\<open>default\<close> of \<^verbatim>\<open>param_spec\<close>, so it follows what the repair pass
  writes there. An operation has a path, a method and a dictionary of parameters by name.
\<close>

record parameter =
  name :: string
  required :: bool
  param_spec :: pydict
  fill :: "pyval option"

definition parameter_default :: "parameter \<Rightarrow> pyval" where
  "parameter_default p = dict_get (param_spec p) ''default''"

record operation =
  path_name :: string
  http_method :: string
  params :: "(string \<times> parameter) list"

section \<open>Repairing common specification issues\<close>

text \<open>The body of the loop of \<^verbatim>\<open>_fix_string_format\<close>, for one parameter.\<close>

definition fix_string_format_param :: "parameter \<Rightarrow> error + parameter" where
  "fix_string_format_param p =
     (let param_format = dict_get (param_spec p) ''format'';
          param_type = dict_get (param_spec p) ''type''
      in if param_format = PStr ''string'' \<and> param_type = PStr ''string''
         then ebind (dict_del ''format'' (param_spec p)) (\<lambda>d. Inr (p\<lparr>param_spec := d\<rparr>))
         else Inr p)"

text \<open>The body of the loop of \<^verbatim>\<open>_fix_string_with_invalid_format\<close>.\<close>

definition invalid_formats :: "pyval list" where
  "invalid_formats = [PStr ''int32'', PStr ''int64'', PStr ''float'', PStr ''double'', PStr '''']"

definition fix_string_with_invalid_format_param :: "parameter \<Rightarrow> error + parameter" where
  "fix_string_with_invalid_format_param p =
     (let param_format = dict_get (param_spec p) ''format'';
          param_type = dict_get (param_spec p) ''type''
      in if param_format \<in> set invalid_formats \<and> param_type = PStr ''string''
         then ebind (dict_del ''format'' (param_spec p)) (\<lambda>d. Inr (p\<lparr>param_spec := d\<rparr>))
         else Inr p)"

text \<open>The body of the loop of \<^verbatim>\<open>_fix_bad_default_for_number_type\<close>.\<close>

definition fix_formats :: "pyval list" where
  "fix_formats = [PStr ''double'', PStr ''float'', PStr ''int32'', PStr ''int64'']"

definition fix_bad_default_for_number_type_param :: "parameter \<Rightarrow> error + parameter" where
  "fix_bad_default_for_number_type_param p =
     (let param_format = dict_get (param_spec p) ''format'';
          param_default = dict_get (param_spec p) ''default''
      in if param_format \<notin> set fix_formats then Inr p
         else (case param_default of
                 PStr s \<Rightarrow>
                   if isdigit s then Inr p
                   else Inr (p\<lparr>param_spec := AList.update ''default'' (PInt 0) (param_spec p)\<rparr>)
               | _ \<Rightarrow> Inr p))"

text \<open>Each pass visits every parameter of the operation.\<close>

definition for_each_param ::
  "(parameter \<Rightarrow> error + parameter) \<Rightarrow> operation \<Rightarrow> error + operation" where
  "for_each_param f op =
     ebind (emap (\<lambda>kv. ebind (f (snd kv)) (\<lambda>p. Inr (fst kv, p))) (params op))
       (\<lambda>ps. Inr (op\<lparr>params := ps\<rparr>))"

definition fix_string_format :: "operation \<Rightarrow> error + operation" where
  "fix_string_format = for_each_param fix_string_format_param"

definition fix_string_with_invalid_format :: "operation \<Rightarrow> error + operation" where
  "fix_string_with_invalid_format = for_each_param fix_string_with_invalid_format_param"

definition fix_bad_default_for_number_type :: "operation \<Rightarrow> error + operation" where
  "fix_bad_default_for_number_type = for_each_param fix_bad_default_for_number_type_param"

definition fix_common_spec_issues :: "operation \<Rightarrow> error + operation" where
  "fix_common_spec_issues op =
     ebind (fix_string_format op) (\<lambda>op1.
     ebind (fix_string_with_invalid_format op1) (\<lambda>op2.
     fix_bad_default_for_number_type op2))"

text \<open>What the three passes, in that order, do to one parameter.\<close>

definition repair_param :: "parameter \<Rightarrow> error + parameter" where
  "repair_param p =
     ebind (fix_string_format_param p) (\<lambda>p1.
     ebind (fix_string_with_invalid_format_param p1) (\<lambda>p2.
     fix_bad_default_for_number_type_param p2))"

section \<open>Collaborators of the handler\<close>

text \<open>
  The handler calls code that is not part of it: \<^verbatim>\<open>self.spec.deref\<close> of the parsed
  specification, \<^verbatim>\<open>smart_fill\<close> and \<^verbatim>\<open>smart_fill_file\<close> of the form filler, and
  Python's \<^verbatim>\<open>random\<close> module. They are parameters of the model. \<open>deref\<close> takes the
  pointer of a \<^verbatim>\<open>$ref\<close>. A generator state is a number: \<open>random_Random\<close> is the state
  of a generator as \<^verbatim>\<open>random.Random()\<close> has just made it (seeded from the clock or the
  operating system), \<open>random_seed\<close> is \<^verbatim>\<open>r.seed(n)\<close> and \<open>random_randint\<close> is
  \<^verbatim>\<open>r.randint(a, b)\<close>, which returns an integer or raises (on an empty range, on a
  bound that is not a number).
\<close>

type_synonym rng = nat

record env =
  deref :: "pyval \<Rightarrow> error + pyval"
  smart_fill :: "pyval \<Rightarrow> error + pyval"
  smart_fill_file :: "pyval \<Rightarrow> string \<Rightarrow> error + pyval"
  random_Random :: rng
  random_seed :: "rng \<Rightarrow> int \<Rightarrow> rng"
  random_randint :: "rng \<Rightarrow> pyval \<Rightarrow> pyval \<Rightarrow> error + int"

section \<open>Synthesizing a value for a parameter specification\<close>

text \<open>
  \<^verbatim>\<open>DEFAULT_VALUES_BY_TYPE.get(parameter_type, None)\<close>: a list or a dictionary is not
  hashable and cannot be looked up.
\<close>

fun default_values_by_type :: "pyval \<Rightarrow> error + pyval" where
  "default_values_by_type (PStr t) =
     Inr (if t = ''int64'' then PInt 42
          else if t = ''int32'' then PInt 42
          else if t = ''integer'' then PInt 42
          else if t = ''float'' then PFloat 4.2
          else if t = ''double'' then PFloat 4.2
          else if t = ''date'' then PDate 2017 6 30
          else if t = ''date-time'' then PDateTime 2017 6 30 23 59 45
          else if t = ''boolean'' then PBool True
          else PNone)"
| "default_values_by_type (PList xs) = Inl TypeError"
| "default_values_by_type (PDict d) = Inl TypeError"
| "default_values_by_type _ = Inr PNone"

definition numeric_types :: "pyval list" where
  "numeric_types =
     [PStr ''integer'', PStr ''float'', PStr ''double'', PStr ''int32'', PStr ''int64'']"

text \<open>\<^verbatim>\<open>_get_param_value_for_type_and_spec\<close>; a result \<open>PNone\<close> is the function
  running off its end.\<close>

definition get_param_value_for_type_and_spec :: "env \<Rightarrow> pyval \<Rightarrow> pyval \<Rightarrow> error + pyval" where
  "get_param_value_for_type_and_spec env parameter_type parameter_spec =
     ebind (py_get parameter_spec ''name'') (\<lambda>parameter_name.
     ebind (py_contains ''enum'' parameter_spec) (\<lambda>has_enum.
     ebind (if has_enum then py_getitem parameter_spec ''enum'' else Inr PNone) (\<lambda>enum.
     if has_enum \<and> py_truthy enum then py_getitem0 enum
     else
     ebind (if parameter_type \<in> set numeric_types then py_contains ''maximum'' parameter_spec
            else Inr False) (\<lambda>has_max.
     ebind (if has_max then py_getitem parameter_spec ''maximum'' else Inr PNone) (\<lambda>max0.
     ebind (if parameter_type \<in> set numeric_types then py_contains ''minimum'' parameter_spec
            else Inr False) (\<lambda>has_min.
     ebind (if has_min then py_getitem parameter_spec ''minimum'' else Inr PNone) (\<lambda>min0.
     if parameter_type \<in> set numeric_types \<and> (max0 \<noteq> PNone \<or> min0 \<noteq> PNone)
     then (let max1 = (if max0 \<noteq> PNone then max0 else PInt 56);
               min1 = (if min0 \<noteq> PNone then min0 else PInt 0);
               r = random_seed env (random_Random env) 1
           in ebind (random_randint env r min1 max1) (\<lambda>i. Inr (PInt i)))
     else
     ebind (default_values_by_type parameter_type) (\<lambda>default_value.
     if default_value \<noteq> PNone then Inr default_value
     else if parameter_type = PStr ''string''
     then smart_fill env (if parameter_name = PNone then PStr ''unknown'' else parameter_name)
     else if parameter_type = PStr ''file''
     then smart_fill_file env
            (if parameter_name = PNone then PStr ''unknown'' else parameter_name) ''cat.png''
     else Inr PNone))))))))"

text \<open>\<^verbatim>\<open>_get_parameter_type\<close>: only a \<^verbatim>\<open>KeyError\<close> is caught.\<close>

definition get_parameter_type :: "pyval \<Rightarrow> error + pyval" where
  "get_parameter_type spec =
     (case py_getitem spec ''format'' of
        Inr parameter_type \<Rightarrow> Inr parameter_type
      | Inl e \<Rightarrow>
          if e \<noteq> KeyError then Inl e
          else (case py_getitem spec ''type'' of
                  Inr parameter_type \<Rightarrow> Inr parameter_type
                | Inl e' \<Rightarrow> if e' \<noteq> KeyError then Inl e' else Inr PNone))"

text \<open>
  Resolving an object definition: \<^verbatim>\<open>_get_object_definition_impl\<close> and
  \<^verbatim>\<open>_merge_all_parts\<close> call each other. The natural number is the call depth still
  available; a reference that leads back to itself exhausts it, as it exhausts the
  interpreter's stack.
\<close>

fun get_object_definition_impl :: "env \<Rightarrow> nat \<Rightarrow> pyval \<Rightarrow> error + pyval"
and merge_all_parts :: "env \<Rightarrow> nat \<Rightarrow> pyval \<Rightarrow> error + pyval"
where
  "get_object_definition_impl env 0 spec = Inl RecursionError"
| "get_object_definition_impl env (Suc n) spec =
     ebind (py_contains ''$ref'' spec) (\<lambda>has_ref.
     ebind (if has_ref then ebind (py_getitem spec ''$ref'') (deref env)
            else Inr spec) (\<lambda>spec.
     ebind (py_contains ''allOf'' spec) (\<lambda>has_all_of.
     ebind (if has_all_of
            then ebind (py_getitem spec ''allOf'') (merge_all_parts env n)
            else Inr spec) (\<lambda>spec.
     ebind (py_contains ''schema'' spec) (\<lambda>has_schema.
     ebind (if has_schema
            then ebind (py_getitem spec ''schema'') (\<lambda>schema.
                 ebind (py_contains ''$ref'' schema) (\<lambda>schema_has_ref.
                 if schema_has_ref then ebind (py_getitem schema ''$ref'') (deref env)
                 else Inr schema))
            else Inr spec) (\<lambda>spec.
     ebind (py_contains ''type'' spec) (\<lambda>has_type.
     ebind (if has_type then py_getitem spec ''type'' else Inr PNone) (\<lambda>param_type.
     Inr spec))))))))"
| "merge_all_parts env 0 all_parts = Inl RecursionError"
| "merge_all_parts env (Suc n) all_parts =
     ebind (py_iter all_parts) (\<lambda>parts.
     ebind (efold (\<lambda>part merged.
              ebind (get_object_definition_impl env n part) (\<lambda>object_definition.
              ebind (py_contains ''required'' object_definition) (\<lambda>has_required.
              ebind (if has_required
                     then ebind (py_getitem object_definition ''required'') (\<lambda>r.
                          ebind (py_iter r) (\<lambda>rs. Inr (fst merged @ rs)))
                     else Inr (fst merged)) (\<lambda>req.
              ebind (py_contains ''properties'' object_definition) (\<lambda>has_properties.
              ebind (if has_properties
                     then ebind (py_getitem object_definition ''properties'') (\<lambda>ps.
                          ebind (py_iteritems ps) (\<lambda>items.
                          Inr (foldl (\<lambda>m kv. AList.update (fst kv) (snd kv) m)
                                 (snd merged) items)))
                     else Inr (snd merged)) (\<lambda>properties.
              Inr (req, properties)))))))
            parts ([], []))
       (\<lambda>merged. Inr (PDict [(''required'', PList (fst merged)),
                              (''properties'', PDict (snd merged)),
                              (''type'', PStr ''object'')])))"

text \<open>
  The value pipeline: \<^verbatim>\<open>_get_param_value\<close>, \<^verbatim>\<open>_get_param_value_for_primitive\<close>,
  \<^verbatim>\<open>_get_param_value_for_array\<close>, \<^verbatim>\<open>_get_param_value_for_model\<close>,
  \<^verbatim>\<open>_get_object_definition\<close> and \<^verbatim>\<open>_create_object\<close>, with the call depth still
  available. \<^verbatim>\<open>_create_object\<close> writes the property's name into the property's
  specification before it descends; the model hands the updated specification to the
  recursive call.
\<close>

fun get_param_value :: "env \<Rightarrow> nat \<Rightarrow> pyval \<Rightarrow> error + pyval"
and get_param_value_for_primitive :: "env \<Rightarrow> nat \<Rightarrow> pyval \<Rightarrow> error + pyval"
and get_param_value_for_array :: "env \<Rightarrow> nat \<Rightarrow> pyval \<Rightarrow> error + pyval"
and get_param_value_for_model :: "env \<Rightarrow> nat \<Rightarrow> pyval \<Rightarrow> error + pyval"
and get_object_definition :: "env \<Rightarrow> nat \<Rightarrow> pyval \<Rightarrow> error + pyval"
and create_object :: "env \<Rightarrow> nat \<Rightarrow> pyval \<Rightarrow> error + pyval"
where
  "get_param_value env 0 spec = Inl RecursionError"
| "get_param_value env (Suc n) spec =
     ebind (py_contains ''schema'' spec) (\<lambda>has_schema.
     ebind (if has_schema then py_getitem spec ''schema'' else Inr spec)
       (\<lambda>spec.
     ebind (get_param_value_for_primitive env n spec) (\<lambda>v.
     if v \<noteq> PNone then Inr v
     else
     ebind (get_param_value_for_model env n spec) (\<lambda>v.
     if v \<noteq> PNone then Inr v
     else Inr (PInt 42)))))"
| "get_param_value_for_primitive env 0 spec = Inl RecursionError"
| "get_param_value_for_primitive env (Suc n) spec =
     ebind (get_parameter_type spec) (\<lambda>parameter_type.
     if parameter_type = PNone then Inr PNone
     else
     ebind (get_param_value_for_type_and_spec env parameter_type spec) (\<lambda>v.
     if v \<noteq> PNone then Inr v
     else
     ebind (get_param_value_for_array env n spec) (\<lambda>v.
     if v \<noteq> PNone then Inr v
     else Inr PNone)))"
| "get_param_value_for_array env 0 spec = Inl RecursionError"
| "get_param_value_for_array env (Suc n) spec =
     ebind (py_get spec ''type'') (\<lambda>param_type.
     if param_type \<noteq> PStr ''array'' then Inr PNone
     else
     ebind (py_get spec ''items'') (\<lambda>items.
     if items = PNone then Inr (PList [])
     else
     ebind (py_contains ''default'' items) (\<lambda>has_default.
     if has_default then ebind (py_getitem items ''default'') (\<lambda>d. Inr (PList [d]))
     else
     ebind (get_param_value env n items) (\<lambda>v.
     if v \<noteq> PNone then Inr (PList [v])
     else Inr (PList [])))))"
| "get_param_value_for_model env 0 spec = Inl RecursionError"
| "get_param_value_for_model env (Suc n) spec =
     ebind (get_object_definition env n spec) (\<lambda>parameter_definition.
     ebind (create_object env n parameter_definition) (\<lambda>created_object.
     if created_object \<noteq> PNone then Inr created_object
     else Inl NotImplementedError))"
| "get_object_definition env 0 spec = Inl RecursionError"
| "get_object_definition env (Suc n) spec = get_object_definition_impl env n spec"
| "create_object env 0 spec = Inl RecursionError"
| "create_object env (Suc n) spec =
     ebind (py_get spec ''type'') (\<lambda>param_type.
     if param_type \<noteq> PStr ''object'' then Inr (PDict [])
     else
     ebind (py_getitem spec ''properties'') (\<lambda>properties.
     ebind (py_iteritems properties) (\<lambda>items.
     ebind (efold (\<lambda>property created_object.
              ebind (py_contains ''name'' (snd property)) (\<lambda>has_name.
              ebind (if has_name then Inr (snd property)
                     else py_setitem (snd property) ''name'' (PStr (fst property)))
                (\<lambda>property_data.
              ebind (get_param_value env n property_data) (\<lambda>v.
              Inr (AList.update (fst property) v created_object)))))
            items [])
       (\<lambda>created_object. Inr (PDict created_object)))))"

section \<open>The pipeline on dictionaries that are objects\<close>









section \<open>Filling the parameters of an operation\<close>

text \<open>\<^verbatim>\<open>_spec_has_default\<close>, \<^verbatim>\<open>_parameter_has_default\<close>, \<^verbatim>\<open>_is_header\<close>,
  \<^verbatim>\<open>_is_header_with_default\<close> and \<^verbatim>\<open>_should_skip_setting_param_value\<close>.\<close>

definition spec_has_default :: "pyval \<Rightarrow> error + bool" where
  "spec_has_default spec =
     ebind (py_get spec ''default'') (\<lambda>d.
     if d \<noteq> PNone then Inr True
     else
     ebind (py_get spec ''enum'') (\<lambda>enum.
     if enum \<noteq> PNone then ebind (py_len enum) (\<lambda>l. Inr (0 < l))
     else Inr False))"

definition parameter_has_default :: "parameter \<Rightarrow> error + bool" where
  "parameter_has_default p =
     ebind (spec_has_default (PDict (param_spec p))) (\<lambda>b.
     if b then Inr True
     else (let schema = dict_get (param_spec p) ''schema''
           in if schema \<noteq> PNone then spec_has_default schema else Inr False))"

definition is_header :: "parameter \<Rightarrow> bool" where
  "is_header p = (dict_get (param_spec p) ''in'' = PStr ''header'')"

definition is_header_with_default :: "parameter \<Rightarrow> error + bool" where
  "is_header_with_default p = (if is_header p then parameter_has_default p else Inr False)"

definition should_skip_setting_param_value :: "parameter \<Rightarrow> bool \<Rightarrow> error + bool" where
  "should_skip_setting_param_value p optional =
     ebind (is_header_with_default p) (\<lambda>b.
     if b then Inr False
     else if \<not> required p \<and> \<not> optional then Inr True
     else Inr False)"

text \<open>\<^verbatim>\<open>_try_to_set_param_value\<close> returns whether it set the value; the parameter
  it changed in place is returned with it.\<close>

definition try_to_set_param_value :: "env \<Rightarrow> nat \<Rightarrow> parameter \<Rightarrow> error + (parameter \<times> bool)" where
  "try_to_set_param_value env n p =
     (if parameter_default p \<noteq> PNone
      then Inr (p\<lparr>fill := Some (parameter_default p)\<rparr>, True)
      else ebind (get_param_value env n (PDict (param_spec p))) (\<lambda>v.
           if v \<noteq> PNone then Inr (p\<lparr>fill := Some v\<rparr>, True)
           else Inr (p, False)))"

text \<open>
  \<^verbatim>\<open>_copy\<close>. \<^verbatim>\<open>Operation.from_spec\<close> of bravado-core builds the operation again
  from the specification it came from: the same parameters, none with a \<^verbatim>\<open>fill\<close>
  attribute. The loop then copies every \<^verbatim>\<open>fill\<close> that the original has.
  \<open>set_fill\<close> is the assignment \<^verbatim>\<open>operation.params[parameter_name].fill = v\<close>.
\<close>

definition from_spec :: "operation \<Rightarrow> operation" where
  "from_spec op = op\<lparr>params := map (\<lambda>kp. (fst kp, (snd kp)\<lparr>fill := None\<rparr>)) (params op)\<rparr>"

definition set_fill :: "string \<Rightarrow> pyval \<Rightarrow> operation \<Rightarrow> error + operation" where
  "set_fill parameter_name v op =
     (if map_of (params op) parameter_name = None then Inl KeyError
      else Inr (op\<lparr>params :=
             map (\<lambda>kp. if fst kp = parameter_name then (fst kp, (snd kp)\<lparr>fill := Some v\<rparr>)
                        else kp) (params op)\<rparr>))"

definition copy_operation :: "operation \<Rightarrow> error + operation" where
  "copy_operation op =
     efold (\<lambda>kp clone. case fill (snd kp) of
                          None \<Rightarrow> Inr clone
                        | Some v \<Rightarrow> set_fill (fst kp) v clone)
       (params op) (from_spec op)"

text \<open>
  \<^verbatim>\<open>ParameterValues\<close>: the dictionary \<^verbatim>\<open>_values\<close> from \<^verbatim>\<open>'%s|%s' % (path, name)\<close>
  to a list of values.
\<close>

type_synonym parameter_values = "(string \<times> pyval list) list"

definition key :: "string \<Rightarrow> string \<Rightarrow> string" where
  "key path nm = path @ ''|'' @ nm"

definition pv_is_empty :: "parameter_values \<Rightarrow> bool" where
  "pv_is_empty vals = (vals = [])"

definition pv_get :: "parameter_values \<Rightarrow> string \<Rightarrow> string \<Rightarrow> pyval list" where
  "pv_get vals path nm =
     (case map_of vals (key path nm) of
        None \<Rightarrow> []
      | Some vs \<Rightarrow> if vs = [] then [] else vs)"

definition pv_set :: "parameter_values \<Rightarrow> string \<Rightarrow> string \<Rightarrow> pyval list \<Rightarrow> parameter_values" where
  "pv_set vals path nm vs = AList.update (key path nm) vs vals"

text \<open>\<^verbatim>\<open>_set_custom_parameter_values\<close>.\<close>

definition set_custom_parameter_values ::
  "operation list \<Rightarrow> string \<Rightarrow> pyval list \<Rightarrow> error + operation list" where
  "set_custom_parameter_values operations parameter_name vals =
     (if vals = [] then Inr operations
      else if length vals = 1
      then emap (set_fill parameter_name (hd vals)) operations
      else efold (\<lambda>op extended_operations.
             efold (\<lambda>v extended.
                ebind (copy_operation op) (\<lambda>clone.
                ebind (set_fill parameter_name v clone) (\<lambda>clone.
                Inr (extended @ [clone]))))
               vals extended_operations)
             operations [])"

text \<open>
  \<^verbatim>\<open>set_operation_params\<close>: repair the specification, copy the operation, fill every
  parameter that is not skipped, then apply the caller's values.
\<close>

definition fill_param :: "env \<Rightarrow> nat \<Rightarrow> bool \<Rightarrow> parameter \<Rightarrow> error + parameter" where
  "fill_param env n optional p0 =
     (let p = p0\<lparr>fill := Some PNone\<rparr>
      in ebind (should_skip_setting_param_value p optional) (\<lambda>skip.
         if skip then Inr p
         else ebind (try_to_set_param_value env n p) (\<lambda>r. Inr (fst r))))"

definition apply_custom_values ::
  "bool \<Rightarrow> parameter_values \<Rightarrow> operation \<Rightarrow> error + operation list" where
  "apply_custom_values optional custom_parameter_values op =
     efold (\<lambda>kp operations.
        ebind (should_skip_setting_param_value (snd kp) optional) (\<lambda>skip.
        if skip then Inr operations
        else (let vals = pv_get custom_parameter_values (path_name op) (name (snd kp))
              in if vals \<noteq> [] then set_custom_parameter_values operations (fst kp) vals
                 else Inr operations)))
       (params op) [op]"

definition set_operation_params ::
  "env \<Rightarrow> nat \<Rightarrow> operation \<Rightarrow> bool \<Rightarrow> parameter_values \<Rightarrow> error + operation list" where
  "set_operation_params env n self_operation optional custom_parameter_values =
     ebind (fix_common_spec_issues self_operation) (\<lambda>self_operation.
     ebind (copy_operation self_operation) (\<lambda>op.
     ebind (for_each_param (fill_param env n optional) op) (\<lambda>op.
     if pv_is_empty custom_parameter_values then Inr [op]
     else apply_custom_values optional custom_parameter_values op)))"

section \<open>Predicates of the specification and example inputs\<close>

text \<open>
  The specification's words for the header rule: a parameter specification carries a
  default when its \<^verbatim>\<open>default\<close> is not \<^verbatim>\<open>None\<close> or its \<^verbatim>\<open>enum\<close> is a non-empty
  list, and lacks one when the default is absent and the enumeration is absent or empty.
\<close>

definition carries_default :: "pydict \<Rightarrow> bool" where
  "carries_default d =
     (dict_get d ''default'' \<noteq> PNone \<or>
      (case dict_get d ''enum'' of PList (x # xs) \<Rightarrow> True | _ \<Rightarrow> False))"

definition lacks_default :: "pydict \<Rightarrow> bool" where
  "lacks_default d =
     (dict_get d ''default'' = PNone \<and>
      (dict_get d ''enum'' = PNone \<or> dict_get d ''enum'' = PList []))"

text \<open>
  The specification's words for the merge of an \<^verbatim>\<open>allOf\<close>: the \<^verbatim>\<open>required\<close> list and
  the \<^verbatim>\<open>properties\<close> of a member (empty when absent), a member whose \<^verbatim>\<open>required\<close>
  is a list and whose \<^verbatim>\<open>properties\<close> is a dictionary when present, and the merged
  definition: the lists concatenated, the properties written one after the other into
  one dictionary, and the type \<^verbatim>\<open>object\<close>.
\<close>

definition required_of :: "pydict \<Rightarrow> pyval list" where
  "required_of d = (case map_of d ''required'' of Some (PList rs) \<Rightarrow> rs | _ \<Rightarrow> [])"

definition properties_of :: "pydict \<Rightarrow> pydict" where
  "properties_of d = (case map_of d ''properties'' of Some (PDict ps) \<Rightarrow> ps | _ \<Rightarrow> [])"

definition well_formed_member :: "pydict \<Rightarrow> bool" where
  "well_formed_member d =
     ((case map_of d ''required'' of None \<Rightarrow> True | Some (PList rs) \<Rightarrow> True | _ \<Rightarrow> False) \<and>
      (case map_of d ''properties'' of None \<Rightarrow> True | Some (PDict ps) \<Rightarrow> True | _ \<Rightarrow> False))"

definition merged_definition :: "pydict list \<Rightarrow> pyval" where
  "merged_definition defs =
     PDict [(''required'', PList (concat (map required_of defs))),
            (''properties'',
               PDict (foldl (\<lambda>m kv. AList.update (fst kv) (snd kv) m) []
                        (concat (map properties_of defs)))),
            (''type'', PStr ''object'')]"

text \<open>
  The specification's words for the expansion. \<open>with_fill\<close> is an operation with the
  fill of one parameter replaced, \<open>with_fills\<close> replaces several in turn, \<open>fill_of\<close>
  reads a fill. \<open>overrides_of\<close> lists, in the order of the parameters, every parameter
  that is not skipped and has values in the caller's store, with those values.
  \<open>cartesian\<close> is the cartesian product: one operation for every choice of one value
  per overridden parameter, the first parameter varying slowest. \<open>expand\<close> is one step
  of it: every operation of a list, once per value.
\<close>

definition with_fill :: "string \<Rightarrow> pyval \<Rightarrow> operation \<Rightarrow> operation" where
  "with_fill k v op =
     op\<lparr>params := map (\<lambda>kp. if fst kp = k then (fst kp, (snd kp)\<lparr>fill := Some v\<rparr>) else kp)
                     (params op)\<rparr>"

definition with_fills :: "(string \<times> pyval) list \<Rightarrow> operation \<Rightarrow> operation" where
  "with_fills kvs op = foldl (\<lambda>op' kv. with_fill (fst kv) (snd kv) op') op kvs"

definition fill_of :: "string \<Rightarrow> operation \<Rightarrow> pyval option" where
  "fill_of k op = (case map_of (params op) k of None \<Rightarrow> None | Some p \<Rightarrow> fill p)"

definition overrides_of ::
  "bool \<Rightarrow> parameter_values \<Rightarrow> operation \<Rightarrow> (string \<times> pyval list) list" where
  "overrides_of optional custom_parameter_values op =
     map (\<lambda>kp. (fst kp, pv_get custom_parameter_values (path_name op) (name (snd kp))))
       (filter (\<lambda>kp. should_skip_setting_param_value (snd kp) optional = Inr False
                     \<and> pv_get custom_parameter_values (path_name op) (name (snd kp)) \<noteq> [])
          (params op))"

definition cartesian :: "(string \<times> pyval list) list \<Rightarrow> operation \<Rightarrow> operation list" where
  "cartesian overrides op =
     map (\<lambda>choice. with_fills (zip (map fst overrides) choice) op)
       (product_lists (map snd overrides))"

definition expand :: "string \<Rightarrow> pyval list \<Rightarrow> operation list \<Rightarrow> operation list" where
  "expand k vals ops = concat (map (\<lambda>op. map (\<lambda>v. with_fill k v op) vals) ops)"

text \<open>
  Collaborators for the examples: no reference resolves, the form filler answers with a
  fixed string, and the generator is a toy whose state after seeding is the seed.
\<close>

definition example_env :: env where
  "example_env =
     \<lparr>deref = (\<lambda>ref. Inl RefResolutionError),
      smart_fill = (\<lambda>nm. Inr (PStr ''56'')),
      smart_fill_file = (\<lambda>nm fn. Inr (PObject fn)),
      random_Random = 0,
      random_seed = (\<lambda>g s. nat \<bar>s\<bar>),
      random_randint = (\<lambda>g a b. case (a, b) of
                           (PInt lo, PInt hi) \<Rightarrow>
                             if lo \<le> hi then Inr (lo + int g mod (hi - lo + 1))
                             else Inl ValueError
                         | _ \<Rightarrow> Inl ValueError)\<rparr>"




text \<open>Example parameters.\<close>

definition ex_param_default :: parameter where
  "ex_param_default =
     \<lparr>name = ''limit'', required = True, param_spec = [(''name'', PStr ''limit''), (''in'', PStr ''query''),
                    (''type'', PStr ''integer''), (''format'', PStr ''int32''),
                    (''default'', PStr ''abc'')],
      fill = None\<rparr>"

definition ex_header_param :: parameter where
  "ex_header_param =
     \<lparr>name = ''X-Api-Version'', required = False, param_spec = [(''name'', PStr ''X-Api-Version''), (''in'', PStr ''header''),
                    (''type'', PStr ''string''), (''default'', PStr ''v1'')],
      fill = None\<rparr>"

definition ex_query_param :: parameter where
  "ex_query_param =
     \<lparr>name = ''page'', required = False, param_spec = [(''name'', PStr ''page''), (''in'', PStr ''query''),
                    (''type'', PStr ''integer''), (''default'', PInt 1)],
      fill = None\<rparr>"

text \<open>
  An optional header with an enumeration and no default, and an operation with two
  optional headers and an optional query parameter; and the operation as
  \<^verbatim>\<open>set_operation_params\<close> returns it when optional parameters are not asked for.
\<close>

definition ex_enum_header :: parameter where
  "ex_enum_header =
     \<lparr>name = ''Accept'', required = False,
      param_spec = [(''name'', PStr ''Accept''), (''in'', PStr ''header''),
                    (''type'', PStr ''string''),
                    (''enum'', PList [PStr ''json'', PStr ''xml''])],
      fill = None\<rparr>"

definition ex_header_operation :: operation where
  "ex_header_operation =
     \<lparr>path_name = ''/items'', http_method = ''get'',
      params = [(''X-Api-Version'', ex_header_param), (''Accept'', ex_enum_header),
                (''page'', ex_query_param)]\<rparr>"

definition ex_header_filled :: operation where
  "ex_header_filled =
     \<lparr>path_name = ''/items'', http_method = ''get'',
      params = [(''X-Api-Version'', ex_header_param\<lparr>fill := Some (PStr ''v1'')\<rparr>),
                (''Accept'', ex_enum_header\<lparr>fill := Some (PStr ''json'')\<rparr>),
                (''page'', ex_query_param\<lparr>fill := Some PNone\<rparr>)]\<rparr>"

text \<open>
  An operation with a required parameter whose default is not a number although its
  format is, and an optional query parameter with a default; and the operation as
  \<^verbatim>\<open>set_operation_params\<close> returns it.
\<close>

definition ex_default_operation :: operation where
  "ex_default_operation =
     \<lparr>path_name = ''/items'', http_method = ''get'',
      params = [(''limit'', ex_param_default), (''page'', ex_query_param)]\<rparr>"

definition ex_default_filled :: operation where
  "ex_default_filled =
     \<lparr>path_name = ''/items'', http_method = ''get'',
      params =
        [(''limit'',
          \<lparr>name = ''limit'', required = True,
           param_spec = [(''name'', PStr ''limit''), (''in'', PStr ''query''),
                         (''type'', PStr ''integer''), (''format'', PStr ''int32''),
                         (''default'', PInt 0)],
           fill = Some (PInt 0)\<rparr>),
         (''page'', ex_query_param\<lparr>fill := Some PNone\<rparr>)]\<rparr>"

text \<open>An \<^verbatim>\<open>allOf\<close> of two members, and an operation with three required parameters, its
  baseline fill and values for two of its parameters.\<close>

definition ex_all_of :: "pyval list" where
  "ex_all_of =
     [PDict [(''required'', PList [PStr ''a''])],
      PDict [(''required'', PList [PStr ''b'']),
             (''properties'', PDict [(''x'', PDict [(''type'', PStr ''string'')])])]]"

definition ex_operation :: operation where
  "ex_operation =
     \<lparr>path_name = ''/pets'', http_method = ''get'',
      params =
        [(''p1'', \<lparr>name = ''p1'', required = True, param_spec = [(''name'', PStr ''p1''), (''in'', PStr ''query''),
                                (''type'', PStr ''string'')],
                  fill = None\<rparr>),
         (''p2'', \<lparr>name = ''p2'', required = True, param_spec = [(''name'', PStr ''p2''), (''in'', PStr ''query''),
                                (''type'', PStr ''integer'')],
                  fill = None\<rparr>),
         (''p3'', \<lparr>name = ''p3'', required = True, param_spec = [(''name'', PStr ''p3''), (''in'', PStr ''query''),
                                (''type'', PStr ''boolean''), (''default'', PBool False)],
                  fill = None\<rparr>)]\<rparr>"

definition ex_base :: operation where
  "ex_base = with_fills [(''p1'', PStr ''56''), (''p2'', PInt 42), (''p3'', PBool False)] ex_operation"

definition ex_overrides :: parameter_values where
  "ex_overrides =
     pv_set (pv_set [] ''/pets'' ''p1'' [PStr ''a'', PStr ''b'']) ''/pets'' ''p2'' [PInt 1, PInt 2]"

text \<open>An operation with the three malformed parameters that the repair is for, and
  its repaired form.\<close>

definition ex_malformed :: operation where
  "ex_malformed =
     \<lparr>path_name = ''/users'', http_method = ''get'',
      params =
        [(''sort'', \<lparr>name = ''sort'', required = False, param_spec = [(''default'', PStr ''name,user_id''), (''type'', PStr ''string''),
                                  (''name'', PStr ''sort''), (''in'', PStr ''query''),
                                  (''format'', PStr ''string'')],
                    fill = None\<rparr>),
         (''fields'', \<lparr>name = ''fields'', required = False, param_spec = [(''default'', PStr ''''), (''type'', PStr ''string''),
                                  (''name'', PStr ''fields''), (''in'', PStr ''query''),
                                  (''format'', PStr ''int64'')],
                    fill = None\<rparr>),
         (''limit'', \<lparr>name = ''limit'', required = False, param_spec = [(''default'', PStr ''ten''), (''type'', PStr ''integer''),
                                  (''name'', PStr ''limit''), (''in'', PStr ''query''),
                                  (''format'', PStr ''int32'')],
                    fill = None\<rparr>)]\<rparr>"

definition ex_repaired :: operation where
  "ex_repaired =
     \<lparr>path_name = ''/users'', http_method = ''get'',
      params =
        [(''sort'', \<lparr>name = ''sort'', required = False, param_spec = [(''default'', PStr ''name,user_id''), (''type'', PStr ''string''),
                                  (''name'', PStr ''sort''), (''in'', PStr ''query'')],
                    fill = None\<rparr>),
         (''fields'', \<lparr>name = ''fields'', required = False, param_spec = [(''default'', PStr ''''), (''type'', PStr ''string''),
                                  (''name'', PStr ''fields''), (''in'', PStr ''query'')],
                    fill = None\<rparr>),
         (''limit'', \<lparr>name = ''limit'', required = False, param_spec = [(''default'', PInt 0), (''type'', PStr ''integer''),
                                  (''name'', PStr ''limit''), (''in'', PStr ''query''),
                                  (''format'', PStr ''int32'')],
                    fill = None\<rparr>)]\<rparr>"

section \<open>The error monad\<close>

lemma ebind_Inr [simp]: "ebind (Inr v) f = f v"
  by (simp add: ebind_def)

lemma ebind_Inl [simp]: "ebind (Inl e) f = Inl e"
  by (simp add: ebind_def)



lemma emap_total: "(\<And>x. f x = Inr (g x)) \<Longrightarrow> emap f xs = Inr (map g xs)"
  by (induction xs) simp_all

lemma for_each_param_total:
  assumes "\<And>p. f p = Inr (g p)"
  shows "for_each_param f op = Inr (op\<lparr>params := map (\<lambda>kv. (fst kv, g (snd kv))) (params op)\<rparr>)"
proof -
  have "emap (\<lambda>kv. ebind (f (snd kv)) (\<lambda>p. Inr (fst kv, p))) (params op)
        = Inr (map (\<lambda>kv. (fst kv, g (snd kv))) (params op))"
    by (rule emap_total) (simp add: assms)
  then show ?thesis by (simp add: for_each_param_def)
qed

section \<open>Repair is idempotent\<close>

lemma dict_del_present: "dict_get d k \<noteq> PNone \<Longrightarrow> dict_del k d = Inr (AList.delete k d)"
  by (auto simp: dict_del_def dict_get_def dict_has_def split: option.splits)

lemma dict_get_delete: "dict_get (AList.delete k d) k' = (if k' = k then PNone else dict_get d k')"
  by (simp add: dict_get_def delete_conv')

lemma dict_get_update: "dict_get (AList.update k v d) k' = (if k' = k then v else dict_get d k')"
  by (simp add: dict_get_def update_conv')

lemma member_invalid_not_None: "v \<in> set invalid_formats \<Longrightarrow> v \<noteq> PNone"
  by (auto simp: invalid_formats_def)

lemma PNone_not_invalid: "PNone \<notin> set invalid_formats"
  by (simp add: invalid_formats_def)

lemma PNone_not_fix: "PNone \<notin> set fix_formats"
  by (simp add: fix_formats_def)

lemma fix_string_format_param_eq:
  "fix_string_format_param p =
     Inr (if dict_get (param_spec p) ''format'' = PStr ''string'' \<and>
             dict_get (param_spec p) ''type'' = PStr ''string''
          then p\<lparr>param_spec := AList.delete ''format'' (param_spec p)\<rparr> else p)"
  by (simp add: fix_string_format_param_def Let_def dict_del_present)

lemma fix_string_with_invalid_format_param_eq:
  "fix_string_with_invalid_format_param p =
     Inr (if dict_get (param_spec p) ''format'' \<in> set invalid_formats \<and>
             dict_get (param_spec p) ''type'' = PStr ''string''
          then p\<lparr>param_spec := AList.delete ''format'' (param_spec p)\<rparr> else p)"
  by (simp add: fix_string_with_invalid_format_param_def Let_def dict_del_present
      member_invalid_not_None)

lemma fix_bad_default_for_number_type_param_eq:
  "fix_bad_default_for_number_type_param p =
     Inr (if dict_get (param_spec p) ''format'' \<in> set fix_formats \<and>
             (\<exists>s. dict_get (param_spec p) ''default'' = PStr s \<and> \<not> isdigit s)
          then p\<lparr>param_spec := AList.update ''default'' (PInt 0) (param_spec p)\<rparr> else p)"
  by (cases "dict_get (param_spec p) ''default''")
     (simp_all add: fix_bad_default_for_number_type_param_def Let_def)

text \<open>The three passes on one parameter, one after the other, reach a parameter that
  none of them changes.\<close>

lemma repair_param_total:
  "\<exists>q. ebind (fix_string_format_param p) (\<lambda>p1.
         ebind (fix_string_with_invalid_format_param p1)
           fix_bad_default_for_number_type_param) = Inr q
       \<and> fix_string_format_param q = Inr q
       \<and> fix_string_with_invalid_format_param q = Inr q
       \<and> fix_bad_default_for_number_type_param q = Inr q"
proof -
  obtain p1 where p1: "fix_string_format_param p = Inr p1"
    and t1: "dict_get (param_spec p1) ''type'' = dict_get (param_spec p) ''type''"
    and c1: "\<not> (dict_get (param_spec p1) ''format'' = PStr ''string'' \<and>
                 dict_get (param_spec p1) ''type'' = PStr ''string'')"
    by (simp add: fix_string_format_param_eq dict_get_delete)
  obtain p2 where p2: "fix_string_with_invalid_format_param p1 = Inr p2"
    and t2: "dict_get (param_spec p2) ''type'' = dict_get (param_spec p1) ''type''"
    and f2: "dict_get (param_spec p2) ''format'' = dict_get (param_spec p1) ''format''
             \<or> dict_get (param_spec p2) ''format'' = PNone"
    and c2: "\<not> (dict_get (param_spec p2) ''format'' \<in> set invalid_formats \<and>
                 dict_get (param_spec p2) ''type'' = PStr ''string'')"
    by (simp add: fix_string_with_invalid_format_param_eq dict_get_delete PNone_not_invalid)
  obtain p3 where p3: "fix_bad_default_for_number_type_param p2 = Inr p3"
    and t3: "dict_get (param_spec p3) ''type'' = dict_get (param_spec p2) ''type''"
    and f3: "dict_get (param_spec p3) ''format'' = dict_get (param_spec p2) ''format''"
    and c3: "\<not> (dict_get (param_spec p3) ''format'' \<in> set fix_formats \<and>
                 (\<exists>s. dict_get (param_spec p3) ''default'' = PStr s \<and> \<not> isdigit s))"
    by (simp add: fix_bad_default_for_number_type_param_eq dict_get_update)
  have d1: "\<not> (dict_get (param_spec p3) ''format'' = PStr ''string'' \<and>
                 dict_get (param_spec p3) ''type'' = PStr ''string'')"
    using c1 f2 t2 f3 t3 by auto
  have d2: "\<not> (dict_get (param_spec p3) ''format'' \<in> set invalid_formats \<and>
                 dict_get (param_spec p3) ''type'' = PStr ''string'')"
    using c2 f3 t3 by simp
  have "fix_string_format_param p3 = Inr p3"
    using d1 by (auto simp: fix_string_format_param_eq)
  moreover have "fix_string_with_invalid_format_param p3 = Inr p3"
    using d2 by (auto simp: fix_string_with_invalid_format_param_eq)
  moreover have "fix_bad_default_for_number_type_param p3 = Inr p3"
    using c3 by (auto simp: fix_bad_default_for_number_type_param_eq)
  ultimately show ?thesis
    using p1 p2 p3 by simp
qed


lemma fix_string_format_param_total:
  "fix_string_format_param p = Inr (projr (fix_string_format_param p))"
  by (simp add: fix_string_format_param_eq)

lemma fix_string_with_invalid_format_param_total:
  "fix_string_with_invalid_format_param p = Inr (projr (fix_string_with_invalid_format_param p))"
  by (simp add: fix_string_with_invalid_format_param_eq)

lemma fix_bad_default_for_number_type_param_total:
  "fix_bad_default_for_number_type_param p = Inr (projr (fix_bad_default_for_number_type_param p))"
  by (simp add: fix_bad_default_for_number_type_param_eq)

lemma repair_param_idem:
  fixes p :: parameter
  defines "q \<equiv> projr (fix_bad_default_for_number_type_param
                 (projr (fix_string_with_invalid_format_param
                   (projr (fix_string_format_param p)))))"
  shows "projr (fix_bad_default_for_number_type_param
                 (projr (fix_string_with_invalid_format_param
                   (projr (fix_string_format_param q))))) = q"
proof -
  obtain q' where q': "ebind (fix_string_format_param p) (\<lambda>p1.
         ebind (fix_string_with_invalid_format_param p1)
           fix_bad_default_for_number_type_param) = Inr q'"
    and fx: "fix_string_format_param q' = Inr q'"
       "fix_string_with_invalid_format_param q' = Inr q'"
       "fix_bad_default_for_number_type_param q' = Inr q'"
    using repair_param_total [of p] by blast
  have "ebind (fix_string_format_param p) (\<lambda>p1.
         ebind (fix_string_with_invalid_format_param p1)
           fix_bad_default_for_number_type_param) = Inr q"
    unfolding q_def
    by (subst fix_string_format_param_total, simp,
        subst fix_string_with_invalid_format_param_total, simp,
        subst fix_bad_default_for_number_type_param_total, rule refl)
  with q' have "q' = q" by simp
  with fx show ?thesis by simp
qed

lemma fix_common_spec_issues_eq:
  "fix_common_spec_issues op =
     Inr (op\<lparr>params := map (\<lambda>kv. (fst kv,
            projr (fix_bad_default_for_number_type_param
              (projr (fix_string_with_invalid_format_param
                (projr (fix_string_format_param (snd kv)))))))) (params op)\<rparr>)"
  by (simp add: fix_common_spec_issues_def fix_string_format_def
      fix_string_with_invalid_format_def fix_bad_default_for_number_type_def
      for_each_param_total [OF fix_string_format_param_total]
      for_each_param_total [OF fix_string_with_invalid_format_param_total]
      for_each_param_total [OF fix_bad_default_for_number_type_param_total] comp_def)

text \<open>
  Claim C9. The repair pass never raises, and repairing a repaired operation changes
  nothing: \<^verbatim>\<open>_fix_common_spec_issues\<close> returns an operation on which it returns the
  same operation again.
\<close>

theorem fix_common_spec_issues_idempotent:
  "\<exists>op'. fix_common_spec_issues op = Inr op' \<and> fix_common_spec_issues op' = Inr op'"
  by (simp add: fix_common_spec_issues_eq comp_def repair_param_idem)

text \<open>A redundant string format, a numeric format on a string and a default that is
  not a number.\<close>

theorem fix_common_spec_issues_idempotent_witness:
  "fix_common_spec_issues ex_malformed = Inr ex_repaired
   \<and> fix_common_spec_issues ex_repaired = Inr ex_repaired"
proof -
  have c: "fix_common_spec_issues ex_malformed = Inr ex_repaired"
    by (simp add: fix_common_spec_issues_eq fix_string_format_param_eq
        fix_string_with_invalid_format_param_eq fix_bad_default_for_number_type_param_eq
        ex_malformed_def ex_repaired_def dict_get_def invalid_formats_def fix_formats_def
        isdigit_def digit_chars_def)
  show ?thesis
    using fix_common_spec_issues_idempotent [of ex_malformed] c by auto
qed

section \<open>Classifying a specification\<close>

declare dict_has_def [simp]

lemma get_parameter_type_format:
  "map_of d ''format'' = Some f \<Longrightarrow> get_parameter_type (PDict d) = Inr f"
  by (simp add: get_parameter_type_def)

lemma get_parameter_type_type:
  "map_of d ''format'' = None \<Longrightarrow> map_of d ''type'' = Some t \<Longrightarrow>
   get_parameter_type (PDict d) = Inr t"
  by (simp add: get_parameter_type_def)

lemma get_parameter_type_none:
  "map_of d ''format'' = None \<Longrightarrow> map_of d ''type'' = None \<Longrightarrow>
   get_parameter_type (PDict d) = Inr PNone"
  by (simp add: get_parameter_type_def)

section \<open>Enumerations\<close>

lemma type_and_spec_enum:
  assumes "map_of d ''enum'' = Some (PList (x # xs))"
  shows "get_param_value_for_type_and_spec env t (PDict d) = Inr x"
  using assms by (simp add: get_param_value_for_type_and_spec_def)

lemma primitive_enum:
  assumes "get_parameter_type (PDict d) = Inr t" "t \<noteq> PNone"
    and "map_of d ''enum'' = Some (PList (x # xs))" "x \<noteq> PNone"
  shows "get_param_value_for_primitive env (Suc n) (PDict d) = Inr x"
  using assms by (simp add: type_and_spec_enum)

lemma get_param_value_unwrapped:
  "map_of d ''schema'' = None \<Longrightarrow>
   get_param_value env (Suc n) (PDict d) =
     ebind (get_param_value_for_primitive env n (PDict d)) (\<lambda>v.
       if v \<noteq> PNone then Inr v
       else ebind (get_param_value_for_model env n (PDict d)) (\<lambda>v.
              if v \<noteq> PNone then Inr v else Inr (PInt 42)))"
  by simp

lemma get_param_value_wrapped:
  "map_of d ''schema'' = Some s \<Longrightarrow>
   get_param_value env (Suc n) (PDict d) =
     ebind (get_param_value_for_primitive env n s) (\<lambda>v.
       if v \<noteq> PNone then Inr v
       else ebind (get_param_value_for_model env n s) (\<lambda>v.
              if v \<noteq> PNone then Inr v else Inr (PInt 42)))"
  by simp

lemma pipeline_enum:
  assumes "map_of d ''format'' = Some f \<and> f \<noteq> PNone
         \<or> map_of d ''format'' = None \<and> map_of d ''type'' = Some t \<and> t \<noteq> PNone"
    and "map_of d ''enum'' = Some (PList (x # xs))" "x \<noteq> PNone"
    and "map_of d ''schema'' = None"
  shows "get_param_value env (Suc (Suc n)) (PDict d) = Inr x"
proof -
  obtain c where c: "get_parameter_type (PDict d) = Inr c" "c \<noteq> PNone"
    using assms(1) by (auto simp: get_parameter_type_format get_parameter_type_type)
  have p: "get_param_value_for_primitive env (Suc n) (PDict d) = Inr x"
    using c assms(2,3) by (rule primitive_enum)
  show ?thesis
    using p assms(3,4)
    by (simp add: get_param_value_unwrapped
        del: get_param_value.simps get_param_value_for_primitive.simps)
qed

text \<open>
  Claim C5, amended. \<^verbatim>\<open>_get_parameter_type\<close> classifies a specification by the value
  under \<^verbatim>\<open>format\<close> when it has that key, and by the value under \<^verbatim>\<open>type\<close> when it
  has no \<^verbatim>\<open>format\<close> key. For every specification whose classification is not
  \<^verbatim>\<open>None\<close> (a \<^verbatim>\<open>format\<close> key with a value that is not \<^verbatim>\<open>None\<close>, or no \<^verbatim>\<open>format\<close>
  key and a \<^verbatim>\<open>type\<close> key with a value that is not \<^verbatim>\<open>None\<close>) and whose \<^verbatim>\<open>enum\<close> is a
  non-empty list with a first entry that is not \<^verbatim>\<open>None\<close>, synthesis returns that first
  entry, whatever \<^verbatim>\<open>minimum\<close>, \<^verbatim>\<open>maximum\<close>, \<^verbatim>\<open>default\<close> and the classification say:
  both when the specification has no \<^verbatim>\<open>schema\<close> key and is given to the pipeline as it
  is, and when it is the value under \<^verbatim>\<open>schema\<close> of the specification given.
\<close>
theorem enum_first_entry:
  assumes "map_of d ''format'' = Some f \<and> f \<noteq> PNone
         \<or> map_of d ''format'' = None \<and> map_of d ''type'' = Some t \<and> t \<noteq> PNone"
    and "map_of d ''enum'' = Some (PList (x # xs))" "x \<noteq> PNone"
  shows "(map_of d ''schema'' = None \<longrightarrow> get_param_value env (n + 2) (PDict d) = Inr x)
       \<and> (map_of outer ''schema'' = Some (PDict d) \<longrightarrow>
            get_param_value env (n + 2) (PDict outer) = Inr x)"
proof -
  have n2: "n + 2 = Suc (Suc n)" by simp
  obtain c where c: "get_parameter_type (PDict d) = Inr c" "c \<noteq> PNone"
    using assms(1) by (auto simp: get_parameter_type_format get_parameter_type_type)
  have p: "get_param_value_for_primitive env (Suc n) (PDict d) = Inr x"
    using c assms(2,3) by (rule primitive_enum)
  show ?thesis
    unfolding n2 using p assms(3)
    by (simp add: get_param_value_unwrapped get_param_value_wrapped
        del: get_param_value.simps get_param_value_for_primitive.simps)
qed

lemmas eval_simps = eval_nat_numeral example_env_def get_parameter_type_def
  get_param_value_for_type_and_spec_def numeric_types_def dict_get_def

text \<open>An integer with a range, a default and an enumeration, alone and under
  \<^verbatim>\<open>schema\<close>.\<close>
theorem enum_first_entry_witness:
  "get_param_value example_env 2
     (PDict [(''name'', PStr ''size''), (''type'', PStr ''integer''), (''minimum'', PInt 3),
             (''maximum'', PInt 9), (''default'', PInt 5),
             (''enum'', PList [PInt 7, PInt 8])]) = Inr (PInt 7)
   \<and> get_param_value example_env 2
     (PDict [(''name'', PStr ''size''), (''in'', PStr ''body''),
        (''schema'', PDict [(''name'', PStr ''size''), (''type'', PStr ''integer''),
             (''minimum'', PInt 3), (''maximum'', PInt 9), (''default'', PInt 5),
             (''enum'', PList [PInt 7, PInt 8])])]) = Inr (PInt 7)"
proof -
  let ?d = "[(''name'', PStr ''size''), (''type'', PStr ''integer''), (''minimum'', PInt 3),
             (''maximum'', PInt 9), (''default'', PInt 5),
             (''enum'', PList [PInt 7, PInt 8])]"
  have t: "map_of ?d ''format'' = Some PNone \<and> PNone \<noteq> PNone
         \<or> map_of ?d ''format'' = None \<and> map_of ?d ''type'' = Some (PStr ''integer'')
           \<and> PStr ''integer'' \<noteq> PNone"
    by simp
  have e: "map_of ?d ''enum'' = Some (PList (PInt 7 # [PInt 8]))" by simp
  have s: "map_of ?d ''schema'' = None" by simp
  from enum_first_entry [OF t e, of example_env 0
      "[(''name'', PStr ''size''), (''in'', PStr ''body''), (''schema'', PDict ?d)]"] s
  show ?thesis by (simp add: eval_nat_numeral del: get_param_value.simps)
qed

text \<open>
  Claim C5 as stated fails on three specifications that have a non-empty
  enumeration. One with neither type nor format is taken for a model, and the value is
  the empty dictionary and not the first entry \<^verbatim>\<open>a\<close>. So is one whose format is
  \<^verbatim>\<open>None\<close>, although it has a type: the value is not the first entry 1. And a first
  entry that is \<^verbatim>\<open>None\<close> is never the value.
\<close>
theorem enum_without_type_counterexample:
  "get_param_value example_env 10 (PDict [(''enum'', PList [PStr ''a'', PStr ''b''])])
     = Inr (PDict [])
   \<and> get_param_value example_env 10
       (PDict [(''format'', PNone), (''type'', PStr ''integer''),
               (''enum'', PList [PInt 1, PInt 2])]) = Inr (PDict [])
   \<and> get_param_value example_env 10
       (PDict [(''type'', PStr ''string''), (''enum'', PList [PNone, PStr ''a''])])
     = Inr (PDict [])"
  by (simp add: eval_simps)

section \<open>Specifications without a type\<close>

lemma create_object_not_object:
  "dict_get d ''type'' \<noteq> PStr ''object'' \<Longrightarrow> create_object env (Suc n) (PDict d) = Inr (PDict [])"
  by simp

lemma impl_plain:
  assumes "map_of d ''$ref'' = None" "map_of d ''allOf'' = None" "map_of d ''schema'' = None"
  shows "get_object_definition_impl env (Suc n) (PDict d) = Inr (PDict d)"
  using assms by (simp split: option.splits)

lemma create_object_shape:
  "create_object env n spec = Inr v \<Longrightarrow> \<exists>obj. v = PDict obj"
  by (cases n) (auto simp: ebind_def split: sum.splits if_splits)

lemma model_never_None: "get_param_value_for_model env n spec \<noteq> Inr PNone"
  by (cases n) (auto simp: ebind_def split: sum.splits if_splits dest: create_object_shape)

lemma model_typeless:
  assumes "map_of d ''type'' = None" "map_of d ''$ref'' = None" "map_of d ''allOf'' = None"
    "map_of d ''schema'' = None"
  shows "get_param_value_for_model env (Suc (Suc (Suc n))) (PDict d) = Inr (PDict [])"
proof -
  have "get_object_definition env (Suc (Suc n)) (PDict d) = Inr (PDict d)"
    using assms impl_plain [of d env n] by simp
  moreover have "create_object env (Suc (Suc n)) (PDict d) = Inr (PDict [])"
    using assms(1) by (simp add: dict_get_def)
  ultimately show ?thesis by simp
qed

text \<open>
  Claim C2, amended. A specification that, after the schema wrapper is removed, has no
  \<^verbatim>\<open>format\<close>, no \<^verbatim>\<open>type\<close>, no reference, no \<^verbatim>\<open>allOf\<close> and no nested schema is
  given the empty dictionary, because \<^verbatim>\<open>_create_object\<close> returns \<^verbatim>\<open>{}\<close> for
  everything that is not of type object. \<^verbatim>\<open>_get_param_value_for_model\<close> never returns
  \<^verbatim>\<open>None\<close>, so the final \<^verbatim>\<open>return 42\<close> of \<^verbatim>\<open>_get_param_value\<close> is never reached.
\<close>
theorem typeless_spec_gives_empty_object:
  assumes "map_of d ''format'' = None" "map_of d ''type'' = None"
    and "map_of d ''$ref'' = None" "map_of d ''allOf'' = None" "map_of d ''schema'' = None"
  shows "get_param_value env (n + 4) (PDict d) = Inr (PDict [])
       \<and> (map_of outer ''schema'' = Some (PDict d) \<longrightarrow>
            get_param_value env (n + 4) (PDict outer) = Inr (PDict []))
       \<and> get_param_value_for_model env m spec \<noteq> Inr PNone"
proof -
  have n4: "n + 4 = Suc (Suc (Suc (Suc n)))" by simp
  have p: "get_param_value_for_primitive env (Suc (Suc (Suc n))) (PDict d) = Inr PNone"
    using assms(1,2) by (simp add: get_parameter_type_none)
  have m: "get_param_value_for_model env (Suc (Suc (Suc n))) (PDict d) = Inr (PDict [])"
    using assms by (simp only: model_typeless)
  show ?thesis
    unfolding n4 using p m assms(5) model_never_None [of env m spec]
    by (simp add: get_param_value_unwrapped get_param_value_wrapped
        del: get_param_value.simps get_param_value_for_primitive.simps
             get_param_value_for_model.simps)
qed

text \<open>A specification that only has a description, bare and inside a schema wrapper.\<close>
theorem typeless_spec_gives_empty_object_witness:
  "get_param_value example_env 4 (PDict [(''description'', PStr ''anything'')]) = Inr (PDict [])
   \<and> get_param_value example_env 4
        (PDict [(''name'', PStr ''body''), (''in'', PStr ''body''),
                (''schema'', PDict [(''description'', PStr ''anything'')])]) = Inr (PDict [])"
  using typeless_spec_gives_empty_object
          [of "[(''description'', PStr ''anything'')]" example_env 0
              "[(''name'', PStr ''body''), (''in'', PStr ''body''),
                (''schema'', PDict [(''description'', PStr ''anything'')])]"]
  by simp

text \<open>
  Claim C2 as stated fails: a body parameter whose schema has neither type nor
  properties is not given 42.
\<close>
theorem fallback_42_counterexample:
  "get_param_value example_env 10
     (PDict [(''name'', PStr ''body''), (''in'', PStr ''body''),
             (''schema'', PDict [(''description'', PStr ''anything'')])]) = Inr (PDict [])
   \<and> get_param_value example_env 10
     (PDict [(''name'', PStr ''body''), (''in'', PStr ''body''),
             (''schema'', PDict [(''description'', PStr ''anything'')])]) \<noteq> Inr (PInt 42)"
  by (simp add: eval_simps)

section \<open>Format before type\<close>

lemma type_and_spec_reads:
  assumes "map_of d ''name'' = map_of d' ''name''" "map_of d ''enum'' = map_of d' ''enum''"
    and "map_of d ''maximum'' = map_of d' ''maximum''"
    and "map_of d ''minimum'' = map_of d' ''minimum''"
  shows "get_param_value_for_type_and_spec env f (PDict d)
       = get_param_value_for_type_and_spec env f (PDict d')"
  unfolding get_param_value_for_type_and_spec_def py_get.simps py_contains.simps
    py_getitem.simps dict_get_def dict_has_def assms ..

lemma type_and_spec_ignores_type:
  "get_param_value_for_type_and_spec env f (PDict (AList.update ''type'' t d))
   = get_param_value_for_type_and_spec env f (PDict d)"
  by (rule type_and_spec_reads) (simp_all add: update_conv')

text \<open>
  Claim C10, amended. When a specification has a \<^verbatim>\<open>format\<close> key,
  \<^verbatim>\<open>_get_parameter_type\<close> returns the format whatever is stored under \<^verbatim>\<open>type\<close>, and
  what \<^verbatim>\<open>_get_param_value_for_type_and_spec\<close> answers for that classification does not
  read the type. When the format is not \<^verbatim>\<open>None\<close>, the specification has no \<^verbatim>\<open>schema\<close>
  key and that answer is a value other than \<^verbatim>\<open>None\<close> or an exception, the answer is
  the result of synthesis whatever the type is. So an array with format \<^verbatim>\<open>int32\<close> is
  given the number 42. Nothing is said here about a format that yields no value.
\<close>
theorem format_classifies_alone:
  assumes "map_of d ''format'' = Some f"
  shows "get_parameter_type (PDict (AList.update ''type'' t d)) = Inr f
       \<and> get_param_value_for_type_and_spec env f (PDict (AList.update ''type'' t d))
           = get_param_value_for_type_and_spec env f (PDict d)
       \<and> (f \<noteq> PNone \<and> map_of d ''schema'' = None
            \<and> get_param_value_for_type_and_spec env f (PDict d) \<noteq> Inr PNone \<longrightarrow>
          get_param_value env (n + 2) (PDict (AList.update ''type'' t d))
            = get_param_value_for_type_and_spec env f (PDict d))
       \<and> get_param_value env (n + 2)
            (PDict [(''type'', PStr ''array''), (''format'', PStr ''int32'')]) = Inr (PInt 42)"
proof -
  have n2: "n + 2 = Suc (Suc n)" by simp
  let ?d = "AList.update ''type'' t d"
  have b: "get_parameter_type (PDict ?d) = Inr f"
    using assms by (simp add: get_parameter_type_format update_conv')
  have i: "get_param_value_for_type_and_spec env f (PDict ?d)
           = get_param_value_for_type_and_spec env f (PDict d)"
    by (rule type_and_spec_ignores_type)
  have v: "get_param_value env (n + 2) (PDict ?d)
           = get_param_value_for_type_and_spec env f (PDict d)"
    if "f \<noteq> PNone" "map_of d ''schema'' = None"
       "get_param_value_for_type_and_spec env f (PDict d) \<noteq> Inr PNone"
  proof -
    have s: "map_of ?d ''schema'' = None"
      using that(2) by (simp add: update_conv')
    have p: "get_param_value_for_primitive env (Suc n) (PDict ?d)
             = get_param_value_for_type_and_spec env f (PDict d)"
      using that(1,3) b i
      by (cases "get_param_value_for_type_and_spec env f (PDict d)") simp_all
    show ?thesis
      unfolding n2 get_param_value_unwrapped [OF s] p
      using that(3) by (cases "get_param_value_for_type_and_spec env f (PDict d)") simp_all
  qed
  have c: "get_param_value env (n + 2)
            (PDict [(''type'', PStr ''array''), (''format'', PStr ''int32'')]) = Inr (PInt 42)"
    unfolding n2
    by (simp add: get_parameter_type_def get_param_value_for_type_and_spec_def
        numeric_types_def dict_get_def)
  show ?thesis
    using b i v c by blast
qed

text \<open>The array with an integer format: the answer for \<^verbatim>\<open>int32\<close> is 42, and 42 is
  the value of the array.\<close>
theorem format_classifies_alone_witness:
  "map_of [(''type'', PStr ''array''), (''format'', PStr ''int32'')] ''format''
     = Some (PStr ''int32'')
   \<and> get_parameter_type (PDict [(''type'', PStr ''array''), (''format'', PStr ''int32'')])
     = Inr (PStr ''int32'')
   \<and> get_param_value_for_type_and_spec example_env (PStr ''int32'')
        (PDict [(''type'', PStr ''array''), (''format'', PStr ''int32'')]) = Inr (PInt 42)
   \<and> get_param_value example_env 2
        (PDict [(''type'', PStr ''array''), (''format'', PStr ''int32'')]) = Inr (PInt 42)"
proof -
  let ?d = "[(''type'', PStr ''array''), (''format'', PStr ''int32'')]"
  have f: "map_of ?d ''format'' = Some (PStr ''int32'')" by simp
  have u: "AList.update ''type'' (PStr ''array'') ?d = ?d" by simp
  have a: "get_param_value_for_type_and_spec example_env (PStr ''int32'') (PDict ?d)
           = Inr (PInt 42)"
    by (simp add: get_param_value_for_type_and_spec_def numeric_types_def example_env_def
        dict_get_def)
  show ?thesis
    using format_classifies_alone [OF f, of "PStr ''array''" example_env 0] a
    unfolding u by (simp add: eval_nat_numeral del: get_param_value.simps)
qed

text \<open>
  Claim C10 as stated fails: the type is not ignored. Two specifications with the same
  format \<^verbatim>\<open>byte\<close>, for which there is no value, differ in their type only; the one of
  type array is given the empty list and the one of type string the empty dictionary.
\<close>
theorem format_without_value_counterexample:
  "get_param_value example_env 10
     (PDict [(''type'', PStr ''array''), (''format'', PStr ''byte'')]) = Inr (PList [])
   \<and> get_param_value example_env 10
     (PDict [(''type'', PStr ''string''), (''format'', PStr ''byte'')]) = Inr (PDict [])"
  by (simp add: eval_simps)

section \<open>Arrays\<close>

lemma get_param_value_not_None: "get_param_value env n spec \<noteq> Inr PNone"
  by (cases n) (auto simp: ebind_def split: sum.splits if_splits)

lemma type_and_spec_array:
  assumes "case map_of d ''enum'' of None \<Rightarrow> True | Some e \<Rightarrow> \<not> py_truthy e"
  shows "get_param_value_for_type_and_spec env (PStr ''array'') (PDict d) = Inr PNone"
  using assms
  by (simp add: get_param_value_for_type_and_spec_def numeric_types_def split: option.splits)

lemma array_shape:
  assumes "get_param_value_for_array env n spec = Inr v"
  shows "v = PNone \<or> (\<exists>xs. v = PList xs \<and> length xs \<le> 1)"
  using assms
  by (cases n) (auto simp: ebind_def split: sum.splits if_splits)

lemma primitive_array:
  assumes "map_of d ''format'' = None" "map_of d ''type'' = Some (PStr ''array'')"
    and "case map_of d ''enum'' of None \<Rightarrow> True | Some e \<Rightarrow> \<not> py_truthy e"
  shows "get_param_value_for_primitive env (Suc n) (PDict d)
       = get_param_value_for_array env n (PDict d)"
proof -
  have t: "get_parameter_type (PDict d) = Inr (PStr ''array'')"
    using assms(1,2) by (rule get_parameter_type_type)
  have "ebind (get_param_value_for_array env n (PDict d))
          (\<lambda>v. if v \<noteq> PNone then Inr v else Inr PNone)
        = get_param_value_for_array env n (PDict d)"
    by (cases "get_param_value_for_array env n (PDict d)") simp_all
  then show ?thesis
    using t assms(3) by (simp add: type_and_spec_array)
qed

lemma array_of_array_type:
  assumes "map_of d ''type'' = Some (PStr ''array'')"
  shows "get_param_value_for_array env (Suc n) (PDict d) =
     (if dict_get d ''items'' = PNone then Inr (PList [])
      else ebind (py_contains ''default'' (dict_get d ''items'')) (\<lambda>has_default.
           if has_default
           then ebind (py_getitem (dict_get d ''items'') ''default'') (\<lambda>dv. Inr (PList [dv]))
           else ebind (get_param_value env n (dict_get d ''items'')) (\<lambda>v. Inr (PList [v]))))"
proof -
  have "ebind (get_param_value env n x) (\<lambda>v. if v \<noteq> PNone then Inr (PList [v]) else Inr (PList []))
      = ebind (get_param_value env n x) (\<lambda>v. Inr (PList [v]))" for x
    using get_param_value_not_None [of env n x]
    by (cases "get_param_value env n x") simp_all
  then show ?thesis
    using assms by (simp add: dict_get_def cong: if_cong)
qed

text \<open>
  Claim C4, amended. Let a specification have no \<^verbatim>\<open>schema\<close> key and no \<^verbatim>\<open>format\<close>
  key, the type \<^verbatim>\<open>array\<close>, and an \<^verbatim>\<open>enum\<close> that is absent or false as a condition
  (\<^verbatim>\<open>None\<close>, empty). When \<^verbatim>\<open>items\<close> is absent or \<^verbatim>\<open>None\<close> the value is the empty list.
  When \<^verbatim>\<open>items\<close> is a dictionary with a \<^verbatim>\<open>default\<close> key the value is the list of what
  is stored under that key. When \<^verbatim>\<open>items\<close> is a dictionary without a \<^verbatim>\<open>default\<close> key
  the value is the list of the one value that the whole pipeline synthesizes for the
  items, and an exception of that synthesis is the exception of the array. Whenever a
  value is returned it is a list of at most one element. A specification that holds
  such an array under \<^verbatim>\<open>schema\<close> has the value of the array.
\<close>
theorem array_value_laws:
  assumes "map_of d ''schema'' = None" "map_of d ''format'' = None"
    and "map_of d ''type'' = Some (PStr ''array'')"
    and "case map_of d ''enum'' of None \<Rightarrow> True | Some e \<Rightarrow> \<not> py_truthy e"
  shows "(dict_get d ''items'' = PNone \<longrightarrow>
            get_param_value env (n + 3) (PDict d) = Inr (PList []))
       \<and> (dict_get d ''items'' = PDict it \<and> map_of it ''default'' = Some dv \<longrightarrow>
            get_param_value env (n + 3) (PDict d) = Inr (PList [dv]))
       \<and> (dict_get d ''items'' = PDict it \<and> map_of it ''default'' = None \<longrightarrow>
            get_param_value env (n + 3) (PDict d)
              = ebind (get_param_value env n (PDict it)) (\<lambda>v. Inr (PList [v])))
       \<and> (get_param_value env (n + 3) (PDict d) = Inr v \<longrightarrow>
            (\<exists>xs. v = PList xs \<and> length xs \<le> 1))
       \<and> (map_of outer ''schema'' = Some (PDict d) \<longrightarrow>
            get_param_value env (n + 3) (PDict outer) = get_param_value env (n + 3) (PDict d))"
proof -
  have n3: "n + 3 = Suc (Suc (Suc n))" by simp
  have w: "get_param_value env (n + 3) (PDict outer) = get_param_value env (n + 3) (PDict d)"
    if "map_of outer ''schema'' = Some (PDict d)"
    unfolding n3 get_param_value_wrapped [OF that] get_param_value_unwrapped [OF assms(1)] ..
  let ?a = "get_param_value_for_array env (Suc n) (PDict d)"
  have shape: "?a = Inr w \<Longrightarrow> \<exists>xs. w = PList xs \<and> length xs \<le> 1" for w
  proof -
    assume w: "?a = Inr w"
    have "w \<noteq> PNone"
      using w get_param_value_not_None [of env n "dict_get d ''items''"]
      unfolding array_of_array_type [OF assms(3)]
      by (auto simp: ebind_def split: if_splits sum.splits)
    with array_shape [OF w] show ?thesis by simp
  qed
  have g: "get_param_value env (n + 3) (PDict d) = ?a"
  proof (cases ?a)
    case (Inl e)
    then show ?thesis
      unfolding n3 using assms
      by (simp add: get_param_value_unwrapped primitive_array
          del: get_param_value.simps get_param_value_for_primitive.simps
               get_param_value_for_array.simps)
  next
    case (Inr w)
    with shape [OF Inr] show ?thesis
      unfolding n3 using assms
      by (auto simp: get_param_value_unwrapped primitive_array
          simp del: get_param_value.simps get_param_value_for_primitive.simps
               get_param_value_for_array.simps)
  qed
  have l: "(dict_get d ''items'' = PNone \<longrightarrow>
            get_param_value env (n + 3) (PDict d) = Inr (PList []))
       \<and> (dict_get d ''items'' = PDict it \<and> map_of it ''default'' = Some dv \<longrightarrow>
            get_param_value env (n + 3) (PDict d) = Inr (PList [dv]))
       \<and> (dict_get d ''items'' = PDict it \<and> map_of it ''default'' = None \<longrightarrow>
            get_param_value env (n + 3) (PDict d)
              = ebind (get_param_value env n (PDict it)) (\<lambda>v. Inr (PList [v])))
       \<and> (get_param_value env (n + 3) (PDict d) = Inr v \<longrightarrow>
            (\<exists>xs. v = PList xs \<and> length xs \<le> 1))"
    unfolding g using shape assms(3)
    by (auto simp: array_of_array_type
        simp del: get_param_value.simps get_param_value_for_array.simps)
  show ?thesis
    using l w by blast
qed

text \<open>The three arrays of the specification's examples, and the first of them under
  \<^verbatim>\<open>schema\<close>.\<close>
theorem array_value_laws_witness:
  "get_param_value example_env 3 (PDict [(''type'', PStr ''array'')]) = Inr (PList [])
   \<and> get_param_value example_env 3
        (PDict [(''type'', PStr ''array''),
                (''items'', PDict [(''type'', PStr ''string''), (''default'', PStr ''x'')])])
       = Inr (PList [PStr ''x''])
   \<and> get_param_value example_env 5
        (PDict [(''type'', PStr ''array''), (''items'', PDict [(''type'', PStr ''integer'')])])
       = Inr (PList [PInt 42])
   \<and> get_param_value example_env 3
        (PDict [(''in'', PStr ''body''), (''schema'', PDict [(''type'', PStr ''array'')])])
       = Inr (PList [])"
proof -
  have a: "get_param_value example_env 3 (PDict [(''type'', PStr ''array'')]) = Inr (PList [])"
    using array_value_laws [where d = "[(''type'', PStr ''array'')]" and env = example_env
            and n = 0]
    by (simp add: dict_get_def)
  have b: "get_param_value example_env 3
        (PDict [(''type'', PStr ''array''),
                (''items'', PDict [(''type'', PStr ''string''), (''default'', PStr ''x'')])])
       = Inr (PList [PStr ''x''])"
    using array_value_laws [where d = "[(''type'', PStr ''array''),
                (''items'', PDict [(''type'', PStr ''string''), (''default'', PStr ''x'')])]"
            and it = "[(''type'', PStr ''string''), (''default'', PStr ''x'')]"
            and dv = "PStr ''x''" and env = example_env and n = 0]
    by (simp add: dict_get_def)
  have i: "get_param_value example_env 2 (PDict [(''type'', PStr ''integer'')]) = Inr (PInt 42)"
    by (simp add: eval_simps)
  have c: "get_param_value example_env 5
        (PDict [(''type'', PStr ''array''), (''items'', PDict [(''type'', PStr ''integer'')])])
       = Inr (PList [PInt 42])"
    using array_value_laws [where d = "[(''type'', PStr ''array''),
                (''items'', PDict [(''type'', PStr ''integer'')])]"
            and it = "[(''type'', PStr ''integer'')]" and env = example_env and n = 2] i
    by (simp add: dict_get_def del: get_param_value.simps)
  have e: "get_param_value example_env 3
        (PDict [(''in'', PStr ''body''), (''schema'', PDict [(''type'', PStr ''array'')])])
       = Inr (PList [])"
    using array_value_laws [where d = "[(''type'', PStr ''array'')]" and env = example_env
            and n = 0
            and outer = "[(''in'', PStr ''body''), (''schema'', PDict [(''type'', PStr ''array'')])]"]
    by (simp add: dict_get_def del: get_param_value.simps)
  show ?thesis using a b c e by simp
qed

text \<open>
  Claim C4 as stated fails on three specifications of type array without items, none
  of which is given the empty list: one with a \<^verbatim>\<open>format\<close> is given the number of the
  format, one with a non-empty \<^verbatim>\<open>enum\<close> its first entry, and one with a \<^verbatim>\<open>schema\<close>
  key the value of the schema.
\<close>
theorem array_with_format_counterexample:
  "get_param_value example_env 10
     (PDict [(''type'', PStr ''array''), (''format'', PStr ''int32'')]) = Inr (PInt 42)
   \<and> get_param_value example_env 10
     (PDict [(''type'', PStr ''array''), (''enum'', PList [PStr ''x''])]) = Inr (PStr ''x'')
   \<and> get_param_value example_env 10
     (PDict [(''type'', PStr ''array''), (''schema'', PDict [(''type'', PStr ''integer'')])])
     = Inr (PInt 42)"
  by (simp add: eval_simps)

section \<open>Which parameters are filled\<close>

lemma spec_has_default_carries:
  "carries_default d \<Longrightarrow> spec_has_default (PDict d) = Inr True"
  by (auto simp: carries_default_def spec_has_default_def split: pyval.splits list.splits)

lemma spec_has_default_lacks:
  "lacks_default d \<Longrightarrow> spec_has_default (PDict d) = Inr False"
  by (auto simp: lacks_default_def spec_has_default_def)

lemma should_skip_fill:
  "should_skip_setting_param_value (p\<lparr>fill := f\<rparr>) optional
   = should_skip_setting_param_value p optional"
  by (simp add: should_skip_setting_param_value_def is_header_with_default_def
      is_header_def parameter_has_default_def Let_def cong: if_cong)

lemma fill_param_not_skipped:
  "should_skip_setting_param_value p optional = Inr False \<Longrightarrow>
   fill_param env n optional p
     = ebind (try_to_set_param_value env n (p\<lparr>fill := Some PNone\<rparr>)) (\<lambda>r. Inr (fst r))"
  by (simp add: fill_param_def Let_def should_skip_fill)

lemma fill_param_skipped:
  "should_skip_setting_param_value p optional = Inr True \<Longrightarrow>
   fill_param env n optional p = Inr (p\<lparr>fill := Some PNone\<rparr>)"
  by (simp add: fill_param_def Let_def should_skip_fill)

section \<open>Determinism\<close>
















section \<open>Merging the members of a composite\<close>

lemma map_of_foldl_update:
  "map_of (foldl (\<lambda>m kv. AList.update (fst kv) (snd kv) m) m0 kvs) = map_of (rev kvs @ m0)"
proof (induction kvs arbitrary: m0)
  case Nil
  show ?case by simp
next
  case (Cons kv kvs)
  show ?case
    by (simp add: Cons update_conv' map_add_def fun_eq_iff split: option.splits)
qed

lemma merge_step:
  assumes "get_object_definition_impl env n part = Inr (PDict def)" "well_formed_member def"
  shows "ebind (get_object_definition_impl env n part) (\<lambda>object_definition.
              ebind (py_contains ''required'' object_definition) (\<lambda>has_required.
              ebind (if has_required
                     then ebind (py_getitem object_definition ''required'') (\<lambda>r.
                          ebind (py_iter r) (\<lambda>rs. Inr (fst merged @ rs)))
                     else Inr (fst merged)) (\<lambda>req.
              ebind (py_contains ''properties'' object_definition) (\<lambda>has_properties.
              ebind (if has_properties
                     then ebind (py_getitem object_definition ''properties'') (\<lambda>ps.
                          ebind (py_iteritems ps) (\<lambda>items.
                          Inr (foldl (\<lambda>m kv. AList.update (fst kv) (snd kv) m)
                                 (snd merged) items)))
                     else Inr (snd merged)) (\<lambda>properties.
              Inr (req, properties))))))
       = Inr (fst merged @ required_of def,
              foldl (\<lambda>m kv. AList.update (fst kv) (snd kv) m) (snd merged) (properties_of def))"
  using assms
  by (auto simp: well_formed_member_def required_of_def properties_of_def
      split: option.splits pyval.splits)

lemma merge_loop:
  assumes "list_all2 (\<lambda>part def. get_object_definition_impl env n part = Inr (PDict def))
             parts defs"
    and "list_all well_formed_member defs"
  shows "efold (\<lambda>part merged.
              ebind (get_object_definition_impl env n part) (\<lambda>object_definition.
              ebind (py_contains ''required'' object_definition) (\<lambda>has_required.
              ebind (if has_required
                     then ebind (py_getitem object_definition ''required'') (\<lambda>r.
                          ebind (py_iter r) (\<lambda>rs. Inr (fst merged @ rs)))
                     else Inr (fst merged)) (\<lambda>req.
              ebind (py_contains ''properties'' object_definition) (\<lambda>has_properties.
              ebind (if has_properties
                     then ebind (py_getitem object_definition ''properties'') (\<lambda>ps.
                          ebind (py_iteritems ps) (\<lambda>items.
                          Inr (foldl (\<lambda>m kv. AList.update (fst kv) (snd kv) m)
                                 (snd merged) items)))
                     else Inr (snd merged)) (\<lambda>properties.
              Inr (req, properties)))))))
            parts acc
       = Inr (fst acc @ concat (map required_of defs),
              foldl (\<lambda>m kv. AList.update (fst kv) (snd kv) m) (snd acc)
                (concat (map properties_of defs)))"
  using assms
proof (induction parts defs arbitrary: acc rule: list_all2_induct)
  case Nil
  show ?case by simp
next
  case (Cons part parts def defs)
  from Cons.prems have wf: "well_formed_member def" and wfs: "list_all well_formed_member defs"
    by simp_all
  show ?case
    by (simp only: efold.simps merge_step [OF Cons.hyps(1) wf] ebind_Inr Cons.IH [OF wfs]
        fst_conv snd_conv list.map concat.simps append_assoc foldl_append)
qed

text \<open>
  Claim C6. When every member of an \<^verbatim>\<open>allOf\<close> resolves to a dictionary (whose
  \<^verbatim>\<open>required\<close>, when present, is a list and whose \<^verbatim>\<open>properties\<close>, when present, is a
  dictionary), \<^verbatim>\<open>_merge_all_parts\<close> returns the merged definition, and so does the
  resolution of a composite that carries the \<^verbatim>\<open>allOf\<close>. Its type is \<^verbatim>\<open>object\<close>, its
  \<^verbatim>\<open>required\<close> is the concatenation of the members' lists in order, duplicates kept,
  and for every name its \<^verbatim>\<open>properties\<close> hold what the last member that declares the
  name says.
\<close>
theorem all_of_merge:
  assumes "list_all2 (\<lambda>part def. get_object_definition_impl env n part = Inr (PDict def))
             parts defs"
    and "list_all well_formed_member defs"
  shows "merge_all_parts env (Suc n) (PList parts) = Inr (merged_definition defs)
       \<and> (map_of d ''$ref'' = None \<and> map_of d ''allOf'' = Some (PList parts) \<longrightarrow>
            get_object_definition_impl env (Suc (Suc n)) (PDict d) = Inr (merged_definition defs))
       \<and> py_get (merged_definition defs) ''type'' = Inr (PStr ''object'')
       \<and> py_get (merged_definition defs) ''required''
           = Inr (PList (concat (map required_of defs)))
       \<and> (\<exists>ps. py_get (merged_definition defs) ''properties'' = Inr (PDict ps)
            \<and> map_of ps = map_of (rev (concat (map properties_of defs))))"
proof -
  have m: "merge_all_parts env (Suc n) (PList parts) = Inr (merged_definition defs)"
    by (simp add: merge_loop [OF assms] merged_definition_def)
  have i: "get_object_definition_impl env (Suc (Suc n)) (PDict d) = Inr (merged_definition defs)"
    if "map_of d ''$ref'' = None" "map_of d ''allOf'' = Some (PList parts)"
  proof -
    have e: "get_object_definition_impl env (Suc (Suc n)) (PDict d)
        = ebind (merge_all_parts env (Suc n) (PList parts)) (\<lambda>spec.
          ebind (py_contains ''schema'' spec) (\<lambda>has_schema.
          ebind (if has_schema
            then ebind (py_getitem spec ''schema'') (\<lambda>schema.
                 ebind (py_contains ''$ref'' schema) (\<lambda>schema_has_ref.
                 if schema_has_ref then ebind (py_getitem schema ''$ref'') (deref env)
                 else Inr schema))
            else Inr spec) (\<lambda>spec.
          ebind (py_contains ''type'' spec) (\<lambda>has_type.
          ebind (if has_type then py_getitem spec ''type'' else Inr PNone) (\<lambda>param_type.
          Inr spec)))))"
      using that by (simp del: merge_all_parts.simps)
    show ?thesis
      unfolding e m by (simp add: merged_definition_def)
  qed
  show ?thesis
    using m i
    by (simp add: merged_definition_def dict_get_def map_of_foldl_update
        del: merge_all_parts.simps get_object_definition_impl.simps)
qed

text \<open>The composite of the specification's example.\<close>
theorem all_of_merge_witness:
  "merge_all_parts example_env 2 (PList ex_all_of)
     = Inr (PDict [(''required'', PList [PStr ''a'', PStr ''b'']),
                   (''properties'', PDict [(''x'', PDict [(''type'', PStr ''string'')])]),
                   (''type'', PStr ''object'')])
   \<and> get_object_definition_impl example_env 3
        (PDict [(''title'', PStr ''Pet''), (''allOf'', PList ex_all_of)])
     = Inr (PDict [(''required'', PList [PStr ''a'', PStr ''b'']),
                   (''properties'', PDict [(''x'', PDict [(''type'', PStr ''string'')])]),
                   (''type'', PStr ''object'')])"
proof -
  let ?defs = "[[(''required'', PList [PStr ''a''])],
      [(''required'', PList [PStr ''b'']),
       (''properties'', PDict [(''x'', PDict [(''type'', PStr ''string'')])])]]"
  have r: "list_all2 (\<lambda>part def. get_object_definition_impl example_env 1 part = Inr (PDict def))
             ex_all_of ?defs"
    by (simp add: ex_all_of_def eval_nat_numeral)
  have w: "list_all well_formed_member ?defs"
    by (simp add: well_formed_member_def)
  have md: "merged_definition ?defs
     = PDict [(''required'', PList [PStr ''a'', PStr ''b'']),
                   (''properties'', PDict [(''x'', PDict [(''type'', PStr ''string'')])]),
                   (''type'', PStr ''object'')]"
    by (simp add: merged_definition_def required_of_def properties_of_def)
  have s: "Suc 1 = 2" "Suc (Suc 1) = 3" by simp_all
  show ?thesis
    using all_of_merge [OF r w, of "[(''title'', PStr ''Pet''), (''allOf'', PList ex_all_of)]"]
    unfolding md s by simp
qed

section \<open>Expanding an operation over the caller's values\<close>

lemma keys_with_fill [simp]: "map fst (params (with_fill k v op)) = map fst (params op)"
  by (simp add: with_fill_def comp_def if_distrib cong: if_cong)

lemma set_fill_present:
  "k \<in> set (map fst (params op)) \<Longrightarrow> set_fill k v op = Inr (with_fill k v op)"
  by (auto simp: set_fill_def with_fill_def map_of_eq_None_iff)

lemma copy_loop:
  assumes "distinct (map fst (pre @ suf))"
  shows "efold (\<lambda>kp clone. case fill (snd kp) of
                          None \<Rightarrow> Inr clone
                        | Some v \<Rightarrow> set_fill (fst kp) v clone)
           suf (op\<lparr>params := pre @ map (\<lambda>kp. (fst kp, (snd kp)\<lparr>fill := None\<rparr>)) suf\<rparr>)
         = Inr (op\<lparr>params := pre @ suf\<rparr>)"
  using assms
proof (induction suf arbitrary: pre)
  case Nil
  show ?case by simp
next
  case (Cons kp suf)
  have d: "distinct (map fst ((pre @ [kp]) @ suf))" using Cons.prems by simp
  have notin: "fst kp \<notin> fst ` set pre" "fst kp \<notin> fst ` set suf"
    using Cons.prems by auto
  show ?case
  proof (cases "fill (snd kp)")
    case None
    then have "(fst kp, (snd kp)\<lparr>fill := None\<rparr>) = kp"
      by (cases kp) simp
    then show ?thesis
      using Cons.IH [OF d] None by simp
  next
    case (Some v)
    have k: "fst kp \<in> set (map fst (params
        (op\<lparr>params := pre @ map (\<lambda>kp. (fst kp, (snd kp)\<lparr>fill := None\<rparr>)) (kp # suf)\<rparr>)))"
      by simp
    have p1: "map (\<lambda>x. if fst x = fst kp then (fst x, (snd x)\<lparr>fill := Some v\<rparr>) else x) pre = pre"
      using notin(1) by (induction pre) auto
    have p2: "map ((\<lambda>x. if fst x = fst kp then (fst x, (snd x)\<lparr>fill := Some v\<rparr>) else x)
                   \<circ> (\<lambda>kp. (fst kp, (snd kp)\<lparr>fill := None\<rparr>))) suf
              = map (\<lambda>kp. (fst kp, (snd kp)\<lparr>fill := None\<rparr>)) suf"
      using notin(2) by (induction suf) auto
    have p3: "(fst kp, (snd kp)\<lparr>fill := Some v\<rparr>) = kp"
      using Some by (cases kp) simp
    have w: "with_fill (fst kp) v
               (op\<lparr>params := pre @ map (\<lambda>kp. (fst kp, (snd kp)\<lparr>fill := None\<rparr>)) (kp # suf)\<rparr>)
             = op\<lparr>params := (pre @ [kp]) @ map (\<lambda>kp. (fst kp, (snd kp)\<lparr>fill := None\<rparr>)) suf\<rparr>"
      by (simp add: with_fill_def p1 p2 p3)
    have step: "set_fill (fst kp) v
               (op\<lparr>params := pre @ map (\<lambda>kp. (fst kp, (snd kp)\<lparr>fill := None\<rparr>)) (kp # suf)\<rparr>)
             = Inr (op\<lparr>params := (pre @ [kp]) @ map (\<lambda>kp. (fst kp, (snd kp)\<lparr>fill := None\<rparr>)) suf\<rparr>)"
      using set_fill_present [OF k, of v] by (simp only: w)
    have "efold (\<lambda>kp clone. case fill (snd kp) of
                          None \<Rightarrow> Inr clone
                        | Some v \<Rightarrow> set_fill (fst kp) v clone)
           (kp # suf)
           (op\<lparr>params := pre @ map (\<lambda>kp. (fst kp, (snd kp)\<lparr>fill := None\<rparr>)) (kp # suf)\<rparr>)
         = Inr (op\<lparr>params := (pre @ [kp]) @ suf\<rparr>)"
      by (simp only: efold.simps Some option.case step ebind_Inr Cons.IH [OF d])
    then show ?thesis by simp
  qed
qed

lemma copy_operation_distinct:
  "distinct (map fst (params op)) \<Longrightarrow> copy_operation op = Inr op"
  using copy_loop [of "[]" "params op" op]
  by (simp add: copy_operation_def from_spec_def)

lemma inner_loop:
  assumes "k \<in> set (map fst (params op))" "distinct (map fst (params op))"
  shows "efold (\<lambda>v extended.
                ebind (copy_operation op) (\<lambda>clone.
                ebind (set_fill k v clone) (\<lambda>clone.
                Inr (extended @ [clone]))))
           vals ext
         = Inr (ext @ map (\<lambda>v. with_fill k v op) vals)"
  by (induction vals arbitrary: ext)
     (simp_all add: copy_operation_distinct [OF assms(2)] set_fill_present [OF assms(1)])

lemma outer_loop:
  assumes "list_all (\<lambda>op. k \<in> set (map fst (params op)) \<and> distinct (map fst (params op))) ops"
  shows "efold (\<lambda>op extended_operations.
             efold (\<lambda>v extended.
                ebind (copy_operation op) (\<lambda>clone.
                ebind (set_fill k v clone) (\<lambda>clone.
                Inr (extended @ [clone]))))
               vals extended_operations)
           ops ext
         = Inr (ext @ expand k vals ops)"
  using assms
  by (induction ops arbitrary: ext) (simp_all add: inner_loop expand_def)

lemma single_loop:
  assumes "list_all (\<lambda>op. k \<in> set (map fst (params op)) \<and> distinct (map fst (params op))) ops"
  shows "emap (set_fill k v) ops = Inr (map (with_fill k v) ops)"
  using assms by (induction ops) (simp_all add: set_fill_present)

lemma set_custom_parameter_values_expand:
  assumes "list_all (\<lambda>op. k \<in> set (map fst (params op)) \<and> distinct (map fst (params op))) ops"
    and "vals \<noteq> []"
  shows "set_custom_parameter_values ops k vals = Inr (expand k vals ops)"
proof (cases "length vals = 1")
  case True
  then obtain v where v: "vals = [v]" by (cases vals) auto
  show ?thesis
    using single_loop [OF assms(1), of v]
    by (simp add: set_custom_parameter_values_def v expand_def comp_def
        flip: map_concat)
next
  case False
  then show ?thesis
    using outer_loop [OF assms(1), of vals "[]"] assms(2)
    by (simp add: set_custom_parameter_values_def)
qed

lemma product_lists_snoc:
  "product_lists (xss @ [vs]) = concat (map (\<lambda>c. map (\<lambda>v. c @ [v]) vs) (product_lists xss))"
proof (induction xss)
  case Nil
  show ?case by (induction vs) simp_all
next
  case (Cons xs xss)
  have "concat (map (\<lambda>x. map (Cons x) (product_lists (xss @ [vs]))) xs)
      = concat (map (\<lambda>c. map (\<lambda>v. c @ [v]) vs)
          (concat (map (\<lambda>x. map (Cons x) (product_lists xss)) xs)))"
    by (induction xs) (simp_all add: Cons map_concat comp_def)
  then show ?case by simp
qed

lemma with_fills_snoc: "with_fills (kvs @ [(k, v)]) op = with_fill k v (with_fills kvs op)"
  by (simp add: with_fills_def)

lemma cartesian_snoc: "cartesian (ovs @ [(k, vs)]) op = expand k vs (cartesian ovs op)"
proof -
  have e: "with_fills (zip (map fst ovs @ [k]) (c @ [v])) op
         = with_fill k v (with_fills (zip (map fst ovs) c) op)"
    if "c \<in> set (product_lists (map snd ovs))" for c v
  proof -
    have "length c = length (map fst ovs)"
      using in_set_product_lists_length [OF that] by simp
    then show ?thesis by (simp add: with_fills_snoc)
  qed
  have "map (\<lambda>c. map (\<lambda>v. with_fills (zip (map fst ovs @ [k]) (c @ [v])) op) vs)
          (product_lists (map snd ovs))
      = map (\<lambda>c. map (\<lambda>v. with_fill k v (with_fills (zip (map fst ovs) c) op)) vs)
          (product_lists (map snd ovs))"
    by (rule map_cong [OF refl]) (simp add: e)
  then have "concat (map (\<lambda>c. map (\<lambda>v. with_fills (zip (map fst ovs @ [k]) (c @ [v])) op) vs)
          (product_lists (map snd ovs)))
      = concat (map (\<lambda>c. map (\<lambda>v. with_fill k v (with_fills (zip (map fst ovs) c) op)) vs)
          (product_lists (map snd ovs)))"
    by (rule arg_cong)
  moreover have "cartesian (ovs @ [(k, vs)]) op
      = concat (map (\<lambda>c. map (\<lambda>v. with_fills (zip (map fst ovs @ [k]) (c @ [v])) op) vs)
          (product_lists (map snd ovs)))"
    by (simp add: cartesian_def product_lists_snoc map_concat comp_def)
  moreover have "expand k vs (cartesian ovs op)
      = concat (map (\<lambda>c. map (\<lambda>v. with_fill k v (with_fills (zip (map fst ovs) c) op)) vs)
          (product_lists (map snd ovs)))"
    by (simp add: cartesian_def expand_def comp_def)
  ultimately show ?thesis by (simp only:)
qed

lemma foldl_expand_cartesian:
  "foldl (\<lambda>ops kv. expand (fst kv) (snd kv) ops) [op] ovs = cartesian ovs op"
proof (induction ovs rule: rev_induct)
  case Nil
  show ?case by (simp add: cartesian_def with_fills_def)
next
  case (snoc kv ovs)
  show ?case
    using cartesian_snoc [of ovs "fst kv" "snd kv" op] by (simp add: snoc)
qed

lemma keys_expand:
  "list_all (\<lambda>op. map fst (params op) = K) ops \<Longrightarrow>
   list_all (\<lambda>op. map fst (params op) = K) (expand k vals ops)"
  by (auto simp: expand_def list_all_iff)

lemma apply_loop:
  assumes "list_all (\<lambda>kp. \<exists>b. should_skip_setting_param_value (snd kp) optional = Inr b) ps"
    and "set (map fst ps) \<subseteq> set K" "distinct K"
    and "list_all (\<lambda>op. map fst (params op) = K) ops"
  shows "efold (\<lambda>kp operations.
        ebind (should_skip_setting_param_value (snd kp) optional) (\<lambda>skip.
        if skip then Inr operations
        else (let vals = pv_get cpv path (name (snd kp))
              in if vals \<noteq> [] then set_custom_parameter_values operations (fst kp) vals
                 else Inr operations)))
       ps ops
     = Inr (foldl (\<lambda>ops kv. expand (fst kv) (snd kv) ops) ops
         (map (\<lambda>kp. (fst kp, pv_get cpv path (name (snd kp))))
            (filter (\<lambda>kp. should_skip_setting_param_value (snd kp) optional = Inr False
                         \<and> pv_get cpv path (name (snd kp)) \<noteq> []) ps)))"
  using assms
proof (induction ps arbitrary: ops)
  case Nil
  show ?case by simp
next
  case (Cons kp ps)
  from Cons.prems(1) obtain b where b: "should_skip_setting_param_value (snd kp) optional = Inr b"
    and rest: "list_all (\<lambda>kp. \<exists>b. should_skip_setting_param_value (snd kp) optional = Inr b) ps"
    by auto
  have sub: "set (map fst ps) \<subseteq> set K" and k: "fst kp \<in> set K"
    using Cons.prems(2) by auto
  show ?case
  proof (cases "\<not> b \<and> pv_get cpv path (name (snd kp)) \<noteq> []")
    case True
    have ok: "list_all (\<lambda>op. fst kp \<in> set (map fst (params op))
                \<and> distinct (map fst (params op))) ops"
      using Cons.prems(3,4) k by (simp add: list_all_iff del: set_map)
    have e: "set_custom_parameter_values ops (fst kp) (pv_get cpv path (name (snd kp)))
           = Inr (expand (fst kp) (pv_get cpv path (name (snd kp))) ops)"
      using set_custom_parameter_values_expand [OF ok] True by simp
    have ks: "list_all (\<lambda>op. map fst (params op) = K)
                (expand (fst kp) (pv_get cpv path (name (snd kp))) ops)"
      using Cons.prems(4) by (rule keys_expand)
    show ?thesis
      using True b e Cons.IH [OF rest sub Cons.prems(3) ks] by (simp add: Let_def)
  next
    case False
    then show ?thesis
      using b Cons.IH [OF rest sub Cons.prems(3) Cons.prems(4)] by (auto simp: Let_def)
  qed
qed

lemma apply_custom_values_cartesian:
  assumes "list_all (\<lambda>kp. \<exists>b. should_skip_setting_param_value (snd kp) optional = Inr b)
             (params base)"
    and "distinct (map fst (params base))"
  shows "apply_custom_values optional cpv base = Inr (cartesian (overrides_of optional cpv base) base)"
  using apply_loop [OF assms(1) subset_refl assms(2), of "[base]" cpv "path_name base"]
  by (simp add: apply_custom_values_def overrides_of_def foldl_expand_cartesian)

lemma emap_result:
  "emap f xs = Inr ys \<Longrightarrow> list_all2 (\<lambda>x y. f x = Inr y) xs ys"
proof (induction xs arbitrary: ys)
  case Nil
  then show ?case by simp
next
  case (Cons x xs)
  then show ?case
    by (auto simp: ebind_def split: sum.splits)
qed

lemma fill_param_result:
  assumes "fill_param env n optional p0 = Inr p'"
  shows "\<exists>b. should_skip_setting_param_value p' optional = Inr b"
proof -
  obtain b where b: "should_skip_setting_param_value p0 optional = Inr b"
    using assms
    by (cases "should_skip_setting_param_value p0 optional")
       (simp_all add: fill_param_def Let_def should_skip_fill)
  have "\<exists>f. p' = p0\<lparr>fill := f\<rparr>"
    using assms b
    by (auto simp: fill_param_def Let_def should_skip_fill try_to_set_param_value_def
        ebind_def split: if_splits sum.splits)
  then show ?thesis
    using b by (auto simp: should_skip_fill)
qed

lemma for_each_param_result:
  assumes "for_each_param f op = Inr op'"
  shows "map fst (params op') = map fst (params op)
       \<and> path_name op' = path_name op
       \<and> list_all (\<lambda>kp'. \<exists>p. f p = Inr (snd kp')) (params op')"
proof -
  obtain ps where ps: "emap (\<lambda>kv. ebind (f (snd kv)) (\<lambda>p. Inr (fst kv, p))) (params op) = Inr ps"
    and op': "op' = op\<lparr>params := ps\<rparr>"
    using assms by (auto simp: for_each_param_def ebind_def split: sum.splits)
  have l: "list_all2 (\<lambda>kv kv'. ebind (f (snd kv)) (\<lambda>p. Inr (fst kv, p)) = Inr kv') (params op) ps"
    using emap_result [OF ps] .
  have "list_all2 (\<lambda>kv kv'. fst kv' = fst kv \<and> f (snd kv) = Inr (snd kv')) (params op) ps"
    using l by (rule list_all2_mono) (auto simp: ebind_def split: sum.splits)
  then have "map fst ps = map fst (params op)" "list_all (\<lambda>kp'. \<exists>p. f p = Inr (snd kp')) ps"
    by (induction rule: list_all2_induct) auto
  then show ?thesis by (simp add: op')
qed

lemma baseline_facts:
  assumes "distinct (map fst (params self_operation))"
    and "set_operation_params env n self_operation optional [] = Inr [base]"
  shows "ebind (fix_common_spec_issues self_operation) (\<lambda>self_operation.
           ebind (copy_operation self_operation)
             (for_each_param (fill_param env n optional))) = Inr base
       \<and> distinct (map fst (params base))
       \<and> list_all (\<lambda>kp. \<exists>b. should_skip_setting_param_value (snd kp) optional = Inr b)
           (params base)"
proof -
  obtain o1 where o1: "fix_common_spec_issues self_operation = Inr o1"
    and k1: "map fst (params o1) = map fst (params self_operation)"
    by (simp add: fix_common_spec_issues_eq comp_def)
  have c: "copy_operation o1 = Inr o1"
    using assms(1) k1 by (simp add: copy_operation_distinct)
  have f: "for_each_param (fill_param env n optional) o1 = Inr base"
    using assms(2) o1 c
    by (cases "for_each_param (fill_param env n optional) o1")
       (simp_all add: set_operation_params_def pv_is_empty_def)
  have r: "map fst (params base) = map fst (params o1)"
    "list_all (\<lambda>kp'. \<exists>p. fill_param env n optional p = Inr (snd kp')) (params base)"
    using for_each_param_result [OF f] by simp_all
  have "list_all (\<lambda>kp. \<exists>b. should_skip_setting_param_value (snd kp) optional = Inr b)
           (params base)"
    using r(2) by (auto simp: list_all_iff dest: fill_param_result)
  then show ?thesis
    using o1 c f r(1) k1 assms(1) by simp
qed

lemma map_of_with_fill:
  "map_of (params (with_fill k' v op)) k
   = (if k = k' then map_option (\<lambda>p. p\<lparr>fill := Some v\<rparr>) (map_of (params op) k)
      else map_of (params op) k)"
proof -
  have h: "map_of (map (\<lambda>kp. if fst kp = k' then (fst kp, (snd kp)\<lparr>fill := Some v\<rparr>) else kp) ps) k
   = (if k = k' then map_option (\<lambda>p. p\<lparr>fill := Some v\<rparr>) (map_of ps k) else map_of ps k)" for ps
    by (induction ps) auto
  show ?thesis by (simp add: with_fill_def h)
qed

lemma map_of_with_fills_other:
  "k \<notin> fst ` set kvs \<Longrightarrow> map_of (params (with_fills kvs op)) k = map_of (params op) k"
proof (induction kvs arbitrary: op)
  case Nil
  show ?case by (simp add: with_fills_def)
next
  case (Cons kv kvs)
  have "with_fills (kv # kvs) op = with_fills kvs (with_fill (fst kv) (snd kv) op)"
    by (simp add: with_fills_def)
  then show ?case
    using Cons by (simp add: map_of_with_fill)
qed

lemma keys_with_fills [simp]: "map fst (params (with_fills kvs op)) = map fst (params op)"
  by (induction kvs arbitrary: op) (simp_all add: with_fills_def)

lemma fill_of_with_fills:
  assumes "k \<in> set (map fst (params op))" "distinct (map fst kvs)"
  shows "fill_of k (with_fills kvs op)
       = (case map_of kvs k of Some v \<Rightarrow> Some v | None \<Rightarrow> fill_of k op)"
  using assms
proof (induction kvs arbitrary: op)
  case Nil
  show ?case by (simp add: with_fills_def)
next
  case (Cons kv kvs)
  have w: "with_fills (kv # kvs) op = with_fills kvs (with_fill (fst kv) (snd kv) op)"
    by (simp add: with_fills_def)
  have k': "k \<in> set (map fst (params (with_fill (fst kv) (snd kv) op)))"
    using Cons.prems(1) by simp
  have d: "distinct (map fst kvs)" and nk: "map_of kvs (fst kv) = None"
    using Cons.prems(2) by (auto simp: map_of_eq_None_iff)
  obtain p where p: "map_of (params op) k = Some p"
    using Cons.prems(1) by (cases "map_of (params op) k") (auto simp: map_of_eq_None_iff)
  show ?case
    unfolding w Cons.IH [OF k' d]
    using nk p by (cases kv) (auto simp: fill_of_def map_of_with_fill split: option.splits)
qed

lemma overrides_of_empty: "overrides_of optional [] op = []"
  by (simp add: overrides_of_def pv_get_def)

lemma keys_overrides_of:
  "map fst (overrides_of optional cpv op)
   = map fst (filter (\<lambda>kp. should_skip_setting_param_value (snd kp) optional = Inr False
                     \<and> pv_get cpv (path_name op) (name (snd kp)) \<noteq> []) (params op))"
  by (simp add: overrides_of_def comp_def)

text \<open>
  Claim C1. Let the expansion without overrides return the single baseline operation
  \<open>base\<close>. Then the expansion with overrides returns the cartesian product over the
  overridden parameters that are not skipped, in the order of the parameters. The number
  of operations is the product of the sizes of the override lists. A parameter that is
  not overridden is the baseline's parameter in every operation returned, and the
  operation made for a choice of values has, for every overridden parameter, the value
  chosen for it.
\<close>
theorem cartesian_expansion:
  assumes "distinct (map fst (params self_operation))"
    and "set_operation_params env n self_operation optional [] = Inr [base]"
  shows "set_operation_params env n self_operation optional cpv
           = Inr (cartesian (overrides_of optional cpv base) base)
       \<and> length (cartesian (overrides_of optional cpv base) base)
           = prod_list (map (\<lambda>kv. length (snd kv)) (overrides_of optional cpv base))
       \<and> (op' \<in> set (cartesian (overrides_of optional cpv base) base)
            \<and> k \<notin> fst ` set (overrides_of optional cpv base) \<longrightarrow>
          map_of (params op') k = map_of (params base) k)
       \<and> (choice \<in> set (product_lists (map snd (overrides_of optional cpv base)))
            \<and> i < length (overrides_of optional cpv base) \<longrightarrow>
          fill_of (fst (overrides_of optional cpv base ! i))
            (with_fills (zip (map fst (overrides_of optional cpv base)) choice) base)
          = Some (choice ! i))"
proof -
  let ?ovs = "overrides_of optional cpv base"
  note b = baseline_facts [OF assms]
  have chain: "ebind (fix_common_spec_issues self_operation) (\<lambda>self_operation.
           ebind (copy_operation self_operation)
             (for_each_param (fill_param env n optional))) = Inr base"
    and dist: "distinct (map fst (params base))"
    and skips: "list_all (\<lambda>kp. \<exists>b. should_skip_setting_param_value (snd kp) optional = Inr b)
           (params base)"
    using b by simp_all
  have sop: "set_operation_params env n self_operation optional cpv
      = ebind (ebind (fix_common_spec_issues self_operation) (\<lambda>self_operation.
           ebind (copy_operation self_operation)
             (for_each_param (fill_param env n optional)))) (\<lambda>op.
         if pv_is_empty cpv then Inr [op] else apply_custom_values optional cpv op)"
    by (simp add: set_operation_params_def ebind_def split: sum.splits)
  have one: "set_operation_params env n self_operation optional cpv = Inr (cartesian ?ovs base)"
  proof (cases "pv_is_empty cpv")
    case True
    then have "cpv = []" by (simp add: pv_is_empty_def)
    then show ?thesis
      unfolding sop chain
      by (simp add: pv_is_empty_def overrides_of_empty cartesian_def with_fills_def)
  next
    case False
    then show ?thesis
      unfolding sop chain
      by (simp add: apply_custom_values_cartesian [OF skips dist])
  qed
  have two: "length (cartesian ?ovs base) = prod_list (map (\<lambda>kv. length (snd kv)) ?ovs)"
    by (simp add: cartesian_def length_product_lists prod_list.eq_foldr comp_def)
  have three: "map_of (params op') k = map_of (params base) k"
    if "op' \<in> set (cartesian ?ovs base)" "k \<notin> fst ` set ?ovs"
  proof -
    from that(1) obtain c where "op' = with_fills (zip (map fst ?ovs) c) base"
      by (auto simp: cartesian_def)
    moreover have "k \<notin> fst ` set (zip (map fst ?ovs) c)"
      using that(2) by (auto dest: set_zip_leftD)
    ultimately show ?thesis by (simp add: map_of_with_fills_other)
  qed
  have four: "fill_of (fst (?ovs ! i)) (with_fills (zip (map fst ?ovs) choice) base)
          = Some (choice ! i)"
    if "choice \<in> set (product_lists (map snd ?ovs))" "i < length ?ovs"
  proof -
    have len: "length (map fst ?ovs) = length choice"
      using in_set_product_lists_length [OF that(1)] by simp
    have dk: "distinct (map fst ?ovs)"
      unfolding keys_overrides_of using dist by (rule distinct_map_filter)
    have "set (map fst ?ovs) \<subseteq> set (map fst (params base))"
      unfolding keys_overrides_of by auto
    then have ki: "fst (?ovs ! i) \<in> set (map fst (params base))"
      using that(2) by (metis length_map nth_map nth_mem subsetD)
    have dz: "distinct (map fst (zip (map fst ?ovs) choice))"
      using dk len by (simp add: map_fst_zip)
    have "map_of (zip (map fst ?ovs) choice) (map fst ?ovs ! i) = Some (choice ! i)"
      using len dk that(2) by (intro map_of_zip_nth) simp_all
    then have m: "map_of (zip (map fst ?ovs) choice) (fst (?ovs ! i)) = Some (choice ! i)"
      using that(2) by simp
    show ?thesis
      by (simp add: fill_of_with_fills [OF ki dz] m)
  qed
  show ?thesis
    using one two three four by blast
qed

lemma ex_baseline:
  "set_operation_params example_env 2 ex_operation False [] = Inr [ex_base]"
  by (simp add: set_operation_params_def fix_common_spec_issues_eq
      fix_string_format_param_eq fix_string_with_invalid_format_param_eq
      fix_bad_default_for_number_type_param_eq copy_operation_distinct
      for_each_param_def fill_param_def should_skip_setting_param_value_def
      is_header_with_default_def is_header_def try_to_set_param_value_def
      parameter_default_def
      pv_is_empty_def ex_operation_def ex_base_def with_fills_def with_fill_def
      invalid_formats_def fix_formats_def Let_def eval_simps)

lemma ex_overrides_of:
  "overrides_of False ex_overrides ex_base
   = [(''p1'', [PStr ''a'', PStr ''b'']), (''p2'', [PInt 1, PInt 2])]"
  by (simp add: overrides_of_def ex_overrides_def ex_base_def ex_operation_def
      with_fills_def with_fill_def pv_set_def pv_get_def key_def
      should_skip_setting_param_value_def is_header_with_default_def is_header_def
      dict_get_def)

text \<open>
  Parameters \<^verbatim>\<open>p1\<close> with the values a, b and \<^verbatim>\<open>p2\<close> with the values 1, 2: four
  operations, one for each pair, and \<^verbatim>\<open>p3\<close> keeps its baseline fill.
\<close>
theorem cartesian_expansion_witness:
  "distinct (map fst (params ex_operation))
   \<and> set_operation_params example_env 2 ex_operation False [] = Inr [ex_base]
   \<and> set_operation_params example_env 2 ex_operation False ex_overrides
       = Inr (cartesian [(''p1'', [PStr ''a'', PStr ''b'']), (''p2'', [PInt 1, PInt 2])] ex_base)
   \<and> length (cartesian [(''p1'', [PStr ''a'', PStr ''b'']), (''p2'', [PInt 1, PInt 2])] ex_base)
       = 4
   \<and> map (\<lambda>op. (fill_of ''p1'' op, fill_of ''p2'' op, fill_of ''p3'' op))
       (cartesian [(''p1'', [PStr ''a'', PStr ''b'']), (''p2'', [PInt 1, PInt 2])] ex_base)
     = [(Some (PStr ''a''), Some (PInt 1), Some (PBool False)),
        (Some (PStr ''a''), Some (PInt 2), Some (PBool False)),
        (Some (PStr ''b''), Some (PInt 1), Some (PBool False)),
        (Some (PStr ''b''), Some (PInt 2), Some (PBool False))]"
proof -
  have d: "distinct (map fst (params ex_operation))"
    by (simp add: ex_operation_def)
  have f: "map (\<lambda>op. (fill_of ''p1'' op, fill_of ''p2'' op, fill_of ''p3'' op))
       (cartesian [(''p1'', [PStr ''a'', PStr ''b'']), (''p2'', [PInt 1, PInt 2])] ex_base)
     = [(Some (PStr ''a''), Some (PInt 1), Some (PBool False)),
        (Some (PStr ''a''), Some (PInt 2), Some (PBool False)),
        (Some (PStr ''b''), Some (PInt 1), Some (PBool False)),
        (Some (PStr ''b''), Some (PInt 2), Some (PBool False))]"
    by (simp add: cartesian_def with_fills_def with_fill_def fill_of_def ex_base_def
        ex_operation_def)
  show ?thesis
    using cartesian_expansion [OF d ex_baseline, of ex_overrides] d f
    unfolding ex_overrides_of
    by (simp add: ex_baseline)
qed

section \<open>The author's default\<close>

lemma repair_param_eq:
  "repair_param p =
     Inr (projr (fix_bad_default_for_number_type_param
            (projr (fix_string_with_invalid_format_param
              (projr (fix_string_format_param p))))))"
  unfolding repair_param_def
  by (subst fix_string_format_param_total, simp,
      subst fix_string_with_invalid_format_param_total, simp,
      subst fix_bad_default_for_number_type_param_total, rule refl)

text \<open>The repair leaves everything but \<^verbatim>\<open>format\<close> and \<^verbatim>\<open>default\<close> as it is, and
  the default changes only where the third pass writes 0.\<close>

lemma repair_param_keeps:
  assumes "repair_param p = Inr q"
  shows "name q = name p" "required q = required p" "fill q = fill p"
    and "k \<noteq> ''format'' \<Longrightarrow> k \<noteq> ''default'' \<Longrightarrow>
         dict_get (param_spec q) k = dict_get (param_spec p) k"
    and "parameter_default q
         = (if dict_get (param_spec q) ''format'' \<in> set fix_formats
               \<and> (\<exists>s. parameter_default p = PStr s \<and> \<not> isdigit s)
            then PInt 0 else parameter_default p)"
proof -
  obtain p1 where p1: "fix_string_format_param p = Inr p1"
    and a1: "name p1 = name p" "required p1 = required p" "fill p1 = fill p"
      "\<And>k. k \<noteq> ''format'' \<Longrightarrow> dict_get (param_spec p1) k = dict_get (param_spec p) k"
    by (simp add: fix_string_format_param_eq dict_get_delete)
  obtain p2 where p2: "fix_string_with_invalid_format_param p1 = Inr p2"
    and a2: "name p2 = name p1" "required p2 = required p1" "fill p2 = fill p1"
      "\<And>k. k \<noteq> ''format'' \<Longrightarrow> dict_get (param_spec p2) k = dict_get (param_spec p1) k"
    by (simp add: fix_string_with_invalid_format_param_eq dict_get_delete)
  define p3 where "p3 = projr (fix_bad_default_for_number_type_param p2)"
  have p3: "fix_bad_default_for_number_type_param p2 = Inr p3"
    by (simp add: p3_def fix_bad_default_for_number_type_param_eq)
  have a3: "name p3 = name p2" "required p3 = required p2" "fill p3 = fill p2"
      "\<And>k. k \<noteq> ''default'' \<Longrightarrow> dict_get (param_spec p3) k = dict_get (param_spec p2) k"
      "dict_get (param_spec p3) ''default''
       = (if dict_get (param_spec p2) ''format'' \<in> set fix_formats
             \<and> (\<exists>s. dict_get (param_spec p2) ''default'' = PStr s \<and> \<not> isdigit s)
          then PInt 0 else dict_get (param_spec p2) ''default'')"
    by (auto simp: p3_def fix_bad_default_for_number_type_param_eq dict_get_update)
  have q: "q = p3"
    using assms p1 p2 p3 by (simp add: repair_param_def)
  show "name q = name p" "required q = required p" "fill q = fill p"
    by (simp_all add: q a1 a2 a3)
  show "dict_get (param_spec q) k = dict_get (param_spec p) k"
    if "k \<noteq> ''format''" "k \<noteq> ''default''"
    using that by (simp add: q a1 a2 a3)
  have f: "dict_get (param_spec p2) ''format'' = dict_get (param_spec q) ''format''"
    by (simp add: q a3)
  have d: "dict_get (param_spec p2) ''default'' = parameter_default p"
    by (simp add: parameter_default_def a1 a2)
  show "parameter_default q
         = (if dict_get (param_spec q) ''format'' \<in> set fix_formats
               \<and> (\<exists>s. parameter_default p = PStr s \<and> \<not> isdigit s)
            then PInt 0 else parameter_default p)"
    using a3(5) unfolding f d by (simp add: parameter_default_def q)
qed

lemma repair_param_default_not_None:
  assumes "repair_param p = Inr q"
  shows "parameter_default q = PNone \<longleftrightarrow> parameter_default p = PNone"
  unfolding repair_param_keeps(5) [OF assms] by auto

lemma has_default_skip:
  assumes "parameter_default p \<noteq> PNone"
  shows "should_skip_setting_param_value p optional
         = Inr (\<not> is_header p \<and> \<not> required p \<and> \<not> optional)"
  using assms
  by (simp add: should_skip_setting_param_value_def is_header_with_default_def
      parameter_has_default_def spec_has_default_def parameter_default_def)

lemma has_default_fill_param:
  assumes "parameter_default p \<noteq> PNone"
  shows "fill_param env n optional p
         = Inr (p\<lparr>fill := Some (if \<not> is_header p \<and> \<not> required p \<and> \<not> optional then PNone
                                 else parameter_default p)\<rparr>)"
proof -
  have d: "parameter_default (p\<lparr>fill := Some PNone\<rparr>) = parameter_default p"
    by (simp add: parameter_default_def)
  show ?thesis
    using assms
    by (simp add: fill_param_def Let_def should_skip_fill has_default_skip
        try_to_set_param_value_def d)
qed

text \<open>A loop over the parameters keeps the keys, so what it returns under a key is
  what the loop body made of the parameter found there.\<close>

lemma emap_lookup:
  assumes "emap (\<lambda>kv. ebind (f (snd kv)) (\<lambda>p. Inr (fst kv, p))) ps = Inr ps'"
    and "map_of ps k = Some p"
  shows "\<exists>p'. f p = Inr p' \<and> map_of ps' k = Some p'"
  using assms
proof (induction ps arbitrary: ps')
  case Nil
  then show ?case by simp
next
  case (Cons kv ps)
  obtain y where y: "f (snd kv) = Inr y"
    using Cons.prems(1) by (cases "f (snd kv)") simp_all
  obtain ys where ys: "emap (\<lambda>kv. ebind (f (snd kv)) (\<lambda>p. Inr (fst kv, p))) ps = Inr ys"
    using Cons.prems(1) y
    by (cases "emap (\<lambda>kv. ebind (f (snd kv)) (\<lambda>p. Inr (fst kv, p))) ps") simp_all
  have ps': "ps' = (fst kv, y) # ys"
    using Cons.prems(1) y ys by simp
  show ?case
  proof (cases "fst kv = k")
    case True
    then have "snd kv = p"
      using Cons.prems(2) by (cases kv) simp
    then show ?thesis
      using y True by (simp add: ps')
  next
    case False
    then have "map_of ps k = Some p"
      using Cons.prems(2) by (cases kv) simp
    from Cons.IH [OF ys this] show ?thesis
      using False by (simp add: ps')
  qed
qed

lemma for_each_param_lookup:
  assumes "for_each_param f op = Inr op'" and "map_of (params op) k = Some p"
  shows "\<exists>p'. f p = Inr p' \<and> map_of (params op') k = Some p'"
proof -
  obtain ps where ps: "emap (\<lambda>kv. ebind (f (snd kv)) (\<lambda>p. Inr (fst kv, p))) (params op) = Inr ps"
    and op': "op' = op\<lparr>params := ps\<rparr>"
    using assms(1) by (auto simp: for_each_param_def ebind_def split: sum.splits)
  show ?thesis
    using emap_lookup [OF ps assms(2)] by (simp add: op')
qed

text \<open>The baseline of an operation, parameter by parameter: the parameter is repaired,
  then filled.\<close>

lemma baseline_lookup:
  assumes "distinct (map fst (params self_operation))"
    and "set_operation_params env n self_operation optional [] = Inr [base]"
    and "map_of (params self_operation) k = Some p"
  shows "\<exists>q p'. repair_param p = Inr q \<and> fill_param env n optional q = Inr p'
               \<and> map_of (params base) k = Some p'"
proof -
  obtain o1 where o1: "fix_common_spec_issues self_operation = Inr o1"
    and k1: "map fst (params o1) = map fst (params self_operation)"
    by (simp add: fix_common_spec_issues_eq comp_def)
  have r: "for_each_param repair_param self_operation = Inr o1"
    using o1
    by (simp add: fix_common_spec_issues_eq for_each_param_total [OF repair_param_eq])
  obtain q where q: "repair_param p = Inr q" "map_of (params o1) k = Some q"
    using for_each_param_lookup [OF r assms(3)] by blast
  have c: "copy_operation o1 = Inr o1"
    using assms(1) k1 by (simp add: copy_operation_distinct)
  have f: "for_each_param (fill_param env n optional) o1 = Inr base"
    using assms(2) o1 c
    by (cases "for_each_param (fill_param env n optional) o1")
       (simp_all add: set_operation_params_def pv_is_empty_def)
  show ?thesis
    using for_each_param_lookup [OF f q(2)] q(1) by blast
qed

text \<open>
  Claim C8. What fills a parameter with a default is the default as the repair pass has
  left it in \<^verbatim>\<open>param_spec\<close>, and only when the parameter is not skipped. For a parameter
  \<open>p\<close> of the operation whose default is not \<^verbatim>\<open>None\<close>: the repair returns a parameter
  \<open>q\<close> whose default is 0 when the format left by the repair is \<^verbatim>\<open>double\<close>, \<^verbatim>\<open>float\<close>,
  \<^verbatim>\<open>int32\<close> or \<^verbatim>\<open>int64\<close> and the author's default is a string that is not all digits,
  and the author's default otherwise. The parameter is skipped exactly when it is not a
  header, not required, and optional parameters are not asked for; then its \<^verbatim>\<open>fill\<close>
  is \<^verbatim>\<open>None\<close>. Otherwise its \<^verbatim>\<open>fill\<close> is the default of \<open>q\<close>, whatever the type and
  format, for all collaborators and with no call depth left for the synthesis pipeline,
  which is therefore not called. This is the fill of the parameter in the operation
  that \<^verbatim>\<open>set_operation_params\<close> returns without caller's values.
\<close>
theorem author_default_short_circuit:
  assumes "distinct (map fst (params self_operation))"
    and "map_of (params self_operation) k = Some p"
    and "parameter_default p \<noteq> PNone"
  shows "\<exists>q. repair_param p = Inr q
       \<and> parameter_default q
           = (if dict_get (param_spec q) ''format'' \<in> set fix_formats
                 \<and> (\<exists>s. parameter_default p = PStr s \<and> \<not> isdigit s)
              then PInt 0 else parameter_default p)
       \<and> parameter_default q \<noteq> PNone
       \<and> should_skip_setting_param_value q optional
           = Inr (\<not> is_header p \<and> \<not> required p \<and> \<not> optional)
       \<and> try_to_set_param_value env 0 q = Inr (q\<lparr>fill := Some (parameter_default q)\<rparr>, True)
       \<and> fill_param env 0 optional q
           = Inr (q\<lparr>fill := Some (if \<not> is_header p \<and> \<not> required p \<and> \<not> optional then PNone
                                   else parameter_default q)\<rparr>)
       \<and> (set_operation_params env n self_operation optional [] = Inr [base] \<longrightarrow>
            map_of (params base) k
            = Some (q\<lparr>fill := Some (if \<not> is_header p \<and> \<not> required p \<and> \<not> optional then PNone
                                    else parameter_default q)\<rparr>))"
proof -
  obtain q where q: "repair_param p = Inr q"
    by (simp add: repair_param_eq)
  note k = repair_param_keeps [OF q]
  have d: "parameter_default q \<noteq> PNone"
    using assms(3) by (simp add: repair_param_default_not_None [OF q])
  have h: "is_header q = is_header p"
    by (simp add: is_header_def k(4))
  have s: "should_skip_setting_param_value q optional
           = Inr (\<not> is_header p \<and> \<not> required p \<and> \<not> optional)"
    by (simp add: has_default_skip [OF d] h k(2))
  have t: "try_to_set_param_value env 0 q = Inr (q\<lparr>fill := Some (parameter_default q)\<rparr>, True)"
    using d by (simp add: try_to_set_param_value_def)
  have f: "fill_param env m optional q
           = Inr (q\<lparr>fill := Some (if \<not> is_header p \<and> \<not> required p \<and> \<not> optional then PNone
                                   else parameter_default q)\<rparr>)" for m
    by (simp add: has_default_fill_param [OF d] h k(2))
  have b: "map_of (params base) k
           = Some (q\<lparr>fill := Some (if \<not> is_header p \<and> \<not> required p \<and> \<not> optional then PNone
                                    else parameter_default q)\<rparr>)"
    if "set_operation_params env n self_operation optional [] = Inr [base]"
    using baseline_lookup [OF assms(1) that assms(2)] q f [of n] by auto
  show ?thesis
    using q k(5) d s t f [of 0] b by blast
qed

text \<open>
  A required parameter of format \<^verbatim>\<open>int32\<close> whose default is the string \<^verbatim>\<open>abc\<close>: the
  repair makes the default 0 and the parameter is filled with 0, with no call depth for
  synthesis.
\<close>
theorem author_default_short_circuit_witness:
  "distinct (map fst (params ex_default_operation))
   \<and> map_of (params ex_default_operation) ''limit'' = Some ex_param_default
   \<and> parameter_default ex_param_default \<noteq> PNone
   \<and> parameter_default (projr (repair_param ex_param_default)) = PInt 0
   \<and> fill_param example_env 0 False (projr (repair_param ex_param_default))
       = Inr (projr (repair_param ex_param_default)\<lparr>fill := Some (PInt 0)\<rparr>)
   \<and> set_operation_params example_env 0 ex_default_operation False [] = Inr [ex_default_filled]
   \<and> map_of (params ex_default_filled) ''limit''
       = Some (projr (repair_param ex_param_default)\<lparr>fill := Some (PInt 0)\<rparr>)"
proof -
  have a: "distinct (map fst (params ex_default_operation))"
    "map_of (params ex_default_operation) ''limit'' = Some ex_param_default"
    "parameter_default ex_param_default \<noteq> PNone"
    by (simp_all add: ex_default_operation_def ex_param_default_def parameter_default_def
        dict_get_def)
  have r: "repair_param ex_param_default
           = Inr (ex_param_default\<lparr>param_spec :=
                    [(''name'', PStr ''limit''), (''in'', PStr ''query''),
                     (''type'', PStr ''integer''), (''format'', PStr ''int32''),
                     (''default'', PInt 0)]\<rparr>)"
    by (simp add: repair_param_def fix_string_format_param_eq
        fix_string_with_invalid_format_param_eq fix_bad_default_for_number_type_param_eq
        ex_param_default_def dict_get_def invalid_formats_def fix_formats_def isdigit_def
        digit_chars_def)
  have h: "\<not> (\<not> is_header ex_param_default \<and> \<not> required ex_param_default \<and> \<not> False)"
    by (simp add: ex_param_default_def)
  have s: "set_operation_params example_env 0 ex_default_operation False []
           = Inr [ex_default_filled]"
    by (simp add: set_operation_params_def fix_common_spec_issues_eq
      fix_string_format_param_eq fix_string_with_invalid_format_param_eq
      fix_bad_default_for_number_type_param_eq copy_operation_distinct
      for_each_param_def fill_param_def should_skip_setting_param_value_def
      is_header_with_default_def is_header_def parameter_has_default_def spec_has_default_def
      try_to_set_param_value_def parameter_default_def
      pv_is_empty_def ex_default_operation_def ex_default_filled_def ex_param_default_def
      ex_query_param_def invalid_formats_def fix_formats_def isdigit_def digit_chars_def
      Let_def dict_get_def)
  show ?thesis
    using author_default_short_circuit [OF a, of False example_env 0 ex_default_filled] a s h
    by (simp add: r parameter_default_def dict_get_def)
qed

text \<open>
  The claim as it is written fails twice on one operation. The author's default of the
  required parameter \<^verbatim>\<open>limit\<close> is the string \<^verbatim>\<open>abc\<close>, and its baseline fill is 0. The
  author's default of the optional query parameter \<^verbatim>\<open>page\<close> is 1, and the parameter
  is skipped: its \<^verbatim>\<open>fill\<close> is \<^verbatim>\<open>None\<close>.
\<close>
theorem author_default_counterexample:
  "parameter_default ex_param_default = PStr ''abc''
   \<and> parameter_default ex_query_param = PInt 1
   \<and> map_of (params ex_default_operation) ''limit'' = Some ex_param_default
   \<and> map_of (params ex_default_operation) ''page'' = Some ex_query_param
   \<and> set_operation_params example_env 4 ex_default_operation False [] = Inr [ex_default_filled]
   \<and> fill_of ''limit'' ex_default_filled = Some (PInt 0)
   \<and> fill_of ''page'' ex_default_filled = Some PNone"
  by (simp add: set_operation_params_def fix_common_spec_issues_eq
      fix_string_format_param_eq fix_string_with_invalid_format_param_eq
      fix_bad_default_for_number_type_param_eq copy_operation_distinct
      for_each_param_def fill_param_def should_skip_setting_param_value_def
      is_header_with_default_def is_header_def parameter_has_default_def spec_has_default_def
      try_to_set_param_value_def parameter_default_def fill_of_def
      pv_is_empty_def ex_default_operation_def ex_default_filled_def ex_param_default_def
      ex_query_param_def invalid_formats_def fix_formats_def isdigit_def digit_chars_def
      Let_def dict_get_def)

section \<open>Headers that carry a default\<close>

lemma try_to_set_param_value_filled:
  assumes "try_to_set_param_value env n p = Inr r"
  shows "\<exists>v. v \<noteq> PNone \<and> r = (p\<lparr>fill := Some v\<rparr>, True)"
proof (cases "parameter_default p = PNone")
  case False
  then have "r = (p\<lparr>fill := Some (parameter_default p)\<rparr>, True)"
    using assms by (simp add: try_to_set_param_value_def)
  with False show ?thesis by blast
next
  case True
  obtain v where v: "get_param_value env n (PDict (param_spec p)) = Inr v"
    using assms True
    by (cases "get_param_value env n (PDict (param_spec p))")
       (simp_all add: try_to_set_param_value_def)
  have n: "v \<noteq> PNone"
    using get_param_value_not_None [of env n "PDict (param_spec p)"] v by auto
  then have "r = (p\<lparr>fill := Some v\<rparr>, True)"
    using assms True v by (simp add: try_to_set_param_value_def)
  with n show ?thesis by blast
qed

lemma fill_param_filled:
  assumes "should_skip_setting_param_value p optional = Inr False"
    and "fill_param env n optional p = Inr p'"
  shows "\<exists>v. v \<noteq> PNone \<and> p' = p\<lparr>fill := Some v\<rparr>"
proof -
  obtain r where r: "try_to_set_param_value env n (p\<lparr>fill := Some PNone\<rparr>) = Inr r"
    and p': "p' = fst r"
    using assms
    by (cases "try_to_set_param_value env n (p\<lparr>fill := Some PNone\<rparr>)")
       (simp_all add: fill_param_not_skipped)
  from try_to_set_param_value_filled [OF r] show ?thesis
    by (auto simp: p')
qed

lemma fill_param_enum:
  assumes "should_skip_setting_param_value p optional = Inr False"
    and "parameter_default p = PNone"
    and "map_of (param_spec p) ''schema'' = None"
    and "map_of (param_spec p) ''format'' = Some f \<and> f \<noteq> PNone
         \<or> map_of (param_spec p) ''format'' = None \<and> map_of (param_spec p) ''type'' = Some t
           \<and> t \<noteq> PNone"
    and "map_of (param_spec p) ''enum'' = Some (PList (x # xs))" "x \<noteq> PNone"
  shows "fill_param env (n + 2) optional p = Inr (p\<lparr>fill := Some x\<rparr>)"
proof -
  have n2: "n + 2 = Suc (Suc n)" by simp
  have d: "parameter_default (p\<lparr>fill := Some PNone\<rparr>) = PNone"
    using assms(2) by (simp add: parameter_default_def)
  have v: "get_param_value env (Suc (Suc n)) (PDict (param_spec p)) = Inr x"
    using assms(4,5,6,3) by (rule pipeline_enum)
  show ?thesis
    unfolding n2 fill_param_not_skipped [OF assms(1)]
    using d v assms(6)
    by (simp add: try_to_set_param_value_def del: get_param_value.simps)
qed

text \<open>The repair does not change whether a parameter is skipped.\<close>

lemma repair_param_skip:
  assumes "repair_param p = Inr q"
  shows "should_skip_setting_param_value q optional
         = should_skip_setting_param_value p optional"
proof -
  note k = repair_param_keeps [OF assms]
  have d: "dict_get (param_spec q) ''default'' = PNone
           \<longleftrightarrow> dict_get (param_spec p) ''default'' = PNone"
    using repair_param_default_not_None [OF assms] by (simp add: parameter_default_def)
  have e: "dict_get (param_spec q) ''enum'' = dict_get (param_spec p) ''enum''"
    "dict_get (param_spec q) ''schema'' = dict_get (param_spec p) ''schema''"
    "dict_get (param_spec q) ''in'' = dict_get (param_spec p) ''in''"
    by (simp_all add: k(4))
  have sh: "spec_has_default (PDict (param_spec q)) = spec_has_default (PDict (param_spec p))"
    by (simp add: spec_has_default_def d e)
  have ph: "parameter_has_default q = parameter_has_default p"
    unfolding parameter_has_default_def sh e(2) ..
  show ?thesis
    unfolding should_skip_setting_param_value_def is_header_with_default_def is_header_def
      ph e(3) k(2) ..
qed

lemma header_not_skipped:
  assumes "is_header p"
    and "carries_default (param_spec p)
         \<or> lacks_default (param_spec p) \<and> dict_get (param_spec p) ''schema'' = PDict sd
           \<and> carries_default sd"
  shows "should_skip_setting_param_value p optional = Inr False"
  using assms
  by (auto simp: should_skip_setting_param_value_def is_header_with_default_def
      parameter_has_default_def spec_has_default_carries spec_has_default_lacks)

lemma optional_skipped:
  assumes "\<not> required p"
    and "\<not> is_header p
         \<or> lacks_default (param_spec p)
           \<and> (dict_get (param_spec p) ''schema'' = PNone
              \<or> dict_get (param_spec p) ''schema'' = PDict sd \<and> lacks_default sd)"
  shows "should_skip_setting_param_value p False = Inr True"
  using assms
  by (auto simp: should_skip_setting_param_value_def is_header_with_default_def
      parameter_has_default_def spec_has_default_lacks)

text \<open>
  Claim C3. A header \<open>p\<close> carries a default when its specification has a default
  that is not \<^verbatim>\<open>None\<close> or a non-empty enumeration, or has neither but holds under
  \<^verbatim>\<open>schema\<close> a dictionary that has one of them. Such a header is never skipped, whether
  it is required or not and whether optional parameters are asked for or not, and the
  loop body of \<^verbatim>\<open>set_operation_params\<close>, when it returns, has filled it with a value
  that is not \<^verbatim>\<open>None\<close>. It does return when the header's own default is not \<^verbatim>\<open>None\<close>:
  the fill is that default. It also returns, with two calls of depth left, when the
  header has no default, no \<^verbatim>\<open>schema\<close> key, a classification that is not \<^verbatim>\<open>None\<close> (the
  value under \<^verbatim>\<open>format\<close>, or under \<^verbatim>\<open>type\<close> when there is no \<^verbatim>\<open>format\<close> key) and an
  enumeration whose first entry is not \<^verbatim>\<open>None\<close>: the fill is that entry. Every other
  optional parameter (one that is not a header, or whose specification and schema have
  neither a default nor a non-empty enumeration) is skipped when optional parameters are
  not asked for, and its \<^verbatim>\<open>fill\<close> is \<^verbatim>\<open>None\<close>. The same holds for the parameters of the
  operation that \<^verbatim>\<open>set_operation_params\<close> returns without caller's values: under the
  key of such a header there is a \<^verbatim>\<open>fill\<close> that is not \<^verbatim>\<open>None\<close>, and under the key of
  any other optional parameter the \<^verbatim>\<open>fill\<close> is \<^verbatim>\<open>None\<close>.
\<close>
theorem header_with_default_is_filled:
  "(is_header p
      \<and> (carries_default (param_spec p)
         \<or> lacks_default (param_spec p) \<and> dict_get (param_spec p) ''schema'' = PDict sd
           \<and> carries_default sd) \<longrightarrow>
      should_skip_setting_param_value p optional = Inr False
      \<and> (fill_param env n optional p = Inr p' \<longrightarrow>
           (\<exists>v. v \<noteq> PNone \<and> p' = p\<lparr>fill := Some v\<rparr>))
      \<and> (parameter_default p \<noteq> PNone \<longrightarrow>
           fill_param env n optional p = Inr (p\<lparr>fill := Some (parameter_default p)\<rparr>))
      \<and> (parameter_default p = PNone \<and> map_of (param_spec p) ''schema'' = None
           \<and> (map_of (param_spec p) ''format'' = Some f \<and> f \<noteq> PNone
              \<or> map_of (param_spec p) ''format'' = None
                \<and> map_of (param_spec p) ''type'' = Some t \<and> t \<noteq> PNone)
           \<and> map_of (param_spec p) ''enum'' = Some (PList (x # xs)) \<and> x \<noteq> PNone \<longrightarrow>
           fill_param env (n + 2) optional p = Inr (p\<lparr>fill := Some x\<rparr>))
      \<and> (distinct (map fst (params self_operation))
           \<and> map_of (params self_operation) k = Some p
           \<and> set_operation_params env n self_operation optional [] = Inr [base] \<longrightarrow>
           (\<exists>v. v \<noteq> PNone \<and> fill_of k base = Some v)))
   \<and> (\<not> required p
      \<and> (\<not> is_header p
         \<or> lacks_default (param_spec p)
           \<and> (dict_get (param_spec p) ''schema'' = PNone
              \<or> dict_get (param_spec p) ''schema'' = PDict sd \<and> lacks_default sd)) \<longrightarrow>
      should_skip_setting_param_value p False = Inr True
      \<and> fill_param env n False p = Inr (p\<lparr>fill := Some PNone\<rparr>)
      \<and> (distinct (map fst (params self_operation))
           \<and> map_of (params self_operation) k = Some p
           \<and> set_operation_params env n self_operation False [] = Inr [base] \<longrightarrow>
           fill_of k base = Some PNone))"
proof -
  have filled: "\<exists>v. v \<noteq> PNone \<and> fill_of k base = Some v"
    if s: "should_skip_setting_param_value p optional = Inr False"
      and o: "distinct (map fst (params self_operation))"
        "map_of (params self_operation) k = Some p"
        "set_operation_params env n self_operation optional [] = Inr [base]"
  proof -
    obtain q q' where q: "repair_param p = Inr q" "fill_param env n optional q = Inr q'"
        "map_of (params base) k = Some q'"
      using baseline_lookup [OF o(1) o(3) o(2)] by blast
    have "should_skip_setting_param_value q optional = Inr False"
      using s by (simp add: repair_param_skip [OF q(1)])
    from fill_param_filled [OF this q(2)] show ?thesis
      using q(3) by (auto simp: fill_of_def)
  qed
  have skipped: "fill_of k base = Some PNone"
    if s: "should_skip_setting_param_value p False = Inr True"
      and o: "distinct (map fst (params self_operation))"
        "map_of (params self_operation) k = Some p"
        "set_operation_params env n self_operation False [] = Inr [base]"
  proof -
    obtain q q' where q: "repair_param p = Inr q" "fill_param env n False q = Inr q'"
        "map_of (params base) k = Some q'"
      using baseline_lookup [OF o(1) o(3) o(2)] by blast
    have "should_skip_setting_param_value q False = Inr True"
      using s by (simp add: repair_param_skip [OF q(1)])
    then have "q' = q\<lparr>fill := Some PNone\<rparr>"
      using q(2) by (simp add: fill_param_skipped)
    then show ?thesis
      using q(3) by (simp add: fill_of_def)
  qed
  have a: "should_skip_setting_param_value p optional = Inr False
      \<and> (fill_param env n optional p = Inr p' \<longrightarrow>
           (\<exists>v. v \<noteq> PNone \<and> p' = p\<lparr>fill := Some v\<rparr>))
      \<and> (parameter_default p \<noteq> PNone \<longrightarrow>
           fill_param env n optional p = Inr (p\<lparr>fill := Some (parameter_default p)\<rparr>))
      \<and> (parameter_default p = PNone \<and> map_of (param_spec p) ''schema'' = None
           \<and> (map_of (param_spec p) ''format'' = Some f \<and> f \<noteq> PNone
              \<or> map_of (param_spec p) ''format'' = None
                \<and> map_of (param_spec p) ''type'' = Some t \<and> t \<noteq> PNone)
           \<and> map_of (param_spec p) ''enum'' = Some (PList (x # xs)) \<and> x \<noteq> PNone \<longrightarrow>
           fill_param env (n + 2) optional p = Inr (p\<lparr>fill := Some x\<rparr>))
      \<and> (distinct (map fst (params self_operation))
           \<and> map_of (params self_operation) k = Some p
           \<and> set_operation_params env n self_operation optional [] = Inr [base] \<longrightarrow>
           (\<exists>v. v \<noteq> PNone \<and> fill_of k base = Some v))"
    if h: "is_header p"
      "carries_default (param_spec p)
         \<or> lacks_default (param_spec p) \<and> dict_get (param_spec p) ''schema'' = PDict sd
           \<and> carries_default sd"
  proof -
    have s: "should_skip_setting_param_value p optional = Inr False"
      using h by (rule header_not_skipped)
    have d: "fill_param env n optional p = Inr (p\<lparr>fill := Some (parameter_default p)\<rparr>)"
      if "parameter_default p \<noteq> PNone"
      using that s h(1) by (simp add: has_default_fill_param has_default_skip)
    show ?thesis
      using s fill_param_filled [OF s] d fill_param_enum [OF s] filled [OF s]
      by blast
  qed
  have b: "should_skip_setting_param_value p False = Inr True
      \<and> fill_param env n False p = Inr (p\<lparr>fill := Some PNone\<rparr>)
      \<and> (distinct (map fst (params self_operation))
           \<and> map_of (params self_operation) k = Some p
           \<and> set_operation_params env n self_operation False [] = Inr [base] \<longrightarrow>
           fill_of k base = Some PNone)"
    if h: "\<not> required p"
      "\<not> is_header p
         \<or> lacks_default (param_spec p)
           \<and> (dict_get (param_spec p) ''schema'' = PNone
              \<or> dict_get (param_spec p) ''schema'' = PDict sd \<and> lacks_default sd)"
  proof -
    have s: "should_skip_setting_param_value p False = Inr True"
      using h by (rule optional_skipped)
    show ?thesis
      using s fill_param_skipped [OF s] skipped [OF s] by blast
  qed
  show ?thesis
    using a b by blast
qed

text \<open>
  An operation with an optional header that has a default, an optional header that has
  an enumeration only, and an optional query parameter that has a default, filled
  without optional parameters: the headers are filled with the default and with the
  first entry, the query parameter is skipped.
\<close>
theorem header_with_default_is_filled_witness:
  "is_header ex_header_param \<and> carries_default (param_spec ex_header_param)
   \<and> \<not> required ex_header_param
   \<and> fill_param example_env 0 False ex_header_param
       = Inr (ex_header_param\<lparr>fill := Some (PStr ''v1'')\<rparr>)
   \<and> is_header ex_enum_header \<and> carries_default (param_spec ex_enum_header)
   \<and> \<not> required ex_enum_header
   \<and> fill_param example_env 2 False ex_enum_header
       = Inr (ex_enum_header\<lparr>fill := Some (PStr ''json'')\<rparr>)
   \<and> \<not> required ex_query_param \<and> \<not> is_header ex_query_param
   \<and> fill_param example_env 0 False ex_query_param
       = Inr (ex_query_param\<lparr>fill := Some PNone\<rparr>)
   \<and> distinct (map fst (params ex_header_operation))
   \<and> set_operation_params example_env 2 ex_header_operation False [] = Inr [ex_header_filled]
   \<and> fill_of ''X-Api-Version'' ex_header_filled = Some (PStr ''v1'')
   \<and> fill_of ''Accept'' ex_header_filled = Some (PStr ''json'')
   \<and> fill_of ''page'' ex_header_filled = Some PNone"
proof -
  have h: "is_header ex_header_param" "carries_default (param_spec ex_header_param)"
      "\<not> required ex_header_param" "parameter_default ex_header_param = PStr ''v1''"
    by (simp_all add: ex_header_param_def is_header_def carries_default_def dict_get_def
        parameter_default_def)
  have e: "is_header ex_enum_header" "carries_default (param_spec ex_enum_header)"
      "\<not> required ex_enum_header" "parameter_default ex_enum_header = PNone"
      "map_of (param_spec ex_enum_header) ''schema'' = None"
      "map_of (param_spec ex_enum_header) ''format'' = None"
      "map_of (param_spec ex_enum_header) ''type'' = Some (PStr ''string'')"
      "map_of (param_spec ex_enum_header) ''enum'' = Some (PList (PStr ''json'' # [PStr ''xml'']))"
    by (simp_all add: ex_enum_header_def is_header_def carries_default_def dict_get_def
        parameter_default_def)
  have q: "\<not> required ex_query_param" "\<not> is_header ex_query_param"
    by (simp_all add: ex_query_param_def is_header_def dict_get_def)
  have d: "distinct (map fst (params ex_header_operation))"
    "map_of (params ex_header_operation) ''X-Api-Version'' = Some ex_header_param"
    "map_of (params ex_header_operation) ''Accept'' = Some ex_enum_header"
    "map_of (params ex_header_operation) ''page'' = Some ex_query_param"
    by (simp_all add: ex_header_operation_def)
  have s: "set_operation_params example_env 2 ex_header_operation False []
           = Inr [ex_header_filled]"
    by (simp add: set_operation_params_def fix_common_spec_issues_eq
      fix_string_format_param_eq fix_string_with_invalid_format_param_eq
      fix_bad_default_for_number_type_param_eq copy_operation_distinct
      for_each_param_def fill_param_def should_skip_setting_param_value_def
      is_header_with_default_def is_header_def parameter_has_default_def spec_has_default_def
      try_to_set_param_value_def parameter_default_def
      pv_is_empty_def ex_header_operation_def ex_header_filled_def ex_header_param_def
      ex_enum_header_def ex_query_param_def invalid_formats_def fix_formats_def
      Let_def eval_simps)
  have f: "fill_of ''X-Api-Version'' ex_header_filled = Some (PStr ''v1'')"
    "fill_of ''Accept'' ex_header_filled = Some (PStr ''json'')"
    "fill_of ''page'' ex_header_filled = Some PNone"
    by (simp_all add: fill_of_def ex_header_filled_def)
  have a: "fill_param example_env 0 False ex_header_param
           = Inr (ex_header_param\<lparr>fill := Some (PStr ''v1'')\<rparr>)"
    using header_with_default_is_filled
            [where p = ex_header_param and optional = False and env = example_env and n = 0
               and sd = "[]" and p' = ex_header_param and f = PNone and t = PNone
               and x = PNone and xs = "[]" and self_operation = ex_header_operation
               and k = "''X-Api-Version''" and base = ex_header_filled] h
    by simp
  have b: "fill_param example_env 2 False ex_enum_header
           = Inr (ex_enum_header\<lparr>fill := Some (PStr ''json'')\<rparr>)"
    using header_with_default_is_filled
            [where p = ex_enum_header and optional = False and env = example_env and n = 0
               and sd = "[]" and p' = ex_enum_header and f = PNone
               and t = "PStr ''string''" and x = "PStr ''json''" and xs = "[PStr ''xml'']"
               and self_operation = ex_header_operation
               and k = "''Accept''" and base = ex_header_filled] e
    by (simp add: eval_nat_numeral)
  have c: "fill_param example_env 0 False ex_query_param
           = Inr (ex_query_param\<lparr>fill := Some PNone\<rparr>)
         \<and> fill_of ''page'' ex_header_filled = Some PNone"
    using header_with_default_is_filled
            [where p = ex_query_param and optional = False and env = example_env and n = 0
               and sd = "[]" and p' = ex_query_param and f = PNone and t = PNone
               and x = PNone and xs = "[]" and self_operation = ex_header_operation
               and k = "''page''" and base = ex_header_filled] q f(3)
    by simp
  show ?thesis
    using a b c h e q d s f by simp
qed

end
